theory Spec2Isabelle
  imports Complex_Main
begin

section \<open>Python values used by the judgment oracle\<close>

text \<open>
  A Python \<open>str\<close> is a sequence of Unicode code points and \<open>len\<close> counts code points,
  so a string is a list of code points. \<open>str_of\<close> reads an ASCII literal.
\<close>

type_synonym pystr = "nat list"

definition str_of :: "string \<Rightarrow> pystr" where
  "str_of s = map of_char s"

text \<open>The exceptions that the modelled code can raise. \<open>APIError\<close> stands for whatever
  the OpenAI client raises (transport, authentication, a response without choices);
  \<open>UnicodeEncodeError\<close> and \<open>OSError\<close> are what \<open>print\<close> raises when standard output cannot
  encode the text or is broken. \<open>KeyboardInterrupt\<close> and \<open>SystemExit\<close> derive from
  \<open>BaseException\<close> but not from \<open>Exception\<close>, so \<open>except Exception\<close> does not catch them;
  \<open>is_exception\<close> tells the two kinds apart.\<close>

datatype error =
    APIError
  | AttributeError
  | JSONDecodeError
  | TypeError
  | ValueError
  | OverflowError
  | ZeroDivisionError
  | UnicodeEncodeError
  | OSError
  | KeyboardInterrupt
  | SystemExit

fun is_exception :: "error \<Rightarrow> bool" where
  "is_exception KeyboardInterrupt = False"
| "is_exception SystemExit = False"
| "is_exception _ = True"

definition and_then :: "error + 'a \<Rightarrow> ('a \<Rightarrow> error + 'b) \<Rightarrow> error + 'b" where
  "and_then m f = (case m of Inl e \<Rightarrow> Inl e | Inr x \<Rightarrow> f x)"

subsection \<open>\<open>str.strip()\<close>\<close>

text \<open>The code points for which \<open>str.isspace\<close> holds; \<open>strip()\<close> without argument removes
  them from both ends.\<close>

definition isspace :: "nat \<Rightarrow> bool" where
  "isspace c =
     ((9 \<le> c \<and> c \<le> 13) \<or> (28 \<le> c \<and> c \<le> 32) \<or> c = 133 \<or> c = 160 \<or> c = 5760 \<or>
      (8192 \<le> c \<and> c \<le> 8202) \<or> c = 8232 \<or> c = 8233 \<or> c = 8239 \<or> c = 8287 \<or>
      c = 12288)"

definition py_strip :: "pystr \<Rightarrow> pystr" where
  "py_strip s = rev (dropWhile isspace (rev (dropWhile isspace s)))"

subsection \<open>Floats\<close>

text \<open>
  A Python \<open>float\<close> is an IEEE 754 binary64 number. A finite one is kept as the rational
  it denotes (the sign of a zero is not kept: the code only ever rounds the float to an
  integer, and \<open>round(-0.0)\<close> is \<open>0\<close>). \<open>fl\<close> rounds a rational to the nearest number
  with a 53-bit significand and an exponent of at least \<open>-1074\<close>, ties to even;
  \<open>float_of_rat\<close> adds the overflow to infinity.
\<close>

function ilog2 :: "int \<Rightarrow> int" where
  "ilog2 n = (if n < 2 then 0 else 1 + ilog2 (n div 2))"
  by pat_completeness auto
termination
  by (relation "measure nat") auto

declare ilog2.simps [simp del]

definition flog2 :: "rat \<Rightarrow> int" where
  "flog2 x = (case quotient_of \<bar>x\<bar> of (p, q) \<Rightarrow>
     let d = ilog2 p - ilog2 q
     in if 2 powi d \<le> \<bar>x\<bar> then d else d - 1)"

definition rne :: "rat \<Rightarrow> int" where
  "rne r = (let f = \<lfloor>r\<rfloor>; d = r - of_int f
            in if d < 1 / 2 then f
               else if 1 / 2 < d then f + 1
               else if even f then f else f + 1)"

definition fl :: "rat \<Rightarrow> rat" where
  "fl x = (if x = 0 then 0
           else let q = max (flog2 x - 52) (- 1074)
                in of_int (rne (x / 2 powi q)) * 2 powi q)"

datatype pyfloat = Fin rat | PInf | NInf | NaN

definition float_of_rat :: "rat \<Rightarrow> pyfloat" where
  "float_of_rat x =
     (let r = fl x
      in if 2 ^ 1024 \<le> r then PInf else if r \<le> - (2 ^ 1024) then NInf else Fin r)"

text \<open>\<open>a / b\<close> on two \<open>int\<close>s: the correctly rounded quotient, \<open>ZeroDivisionError\<close> for a
  zero divisor and \<open>OverflowError\<close> when the quotient is too large for a float.\<close>

definition int_truediv :: "int \<Rightarrow> int \<Rightarrow> error + pyfloat" where
  "int_truediv a b =
     (if b = 0 then Inl ZeroDivisionError
      else case float_of_rat (of_int a / of_int b) of
             Fin r \<Rightarrow> Inr (Fin r)
           | _ \<Rightarrow> Inl OverflowError)"

text \<open>\<open>x * y\<close> on two floats never raises: it overflows to an infinity.\<close>

fun float_mul :: "pyfloat \<Rightarrow> pyfloat \<Rightarrow> pyfloat" where
  "float_mul (Fin x) (Fin y) = float_of_rat (x * y)"
| "float_mul NaN _ = NaN"
| "float_mul _ NaN = NaN"
| "float_mul (Fin x) PInf = (if x = 0 then NaN else if 0 < x then PInf else NInf)"
| "float_mul (Fin x) NInf = (if x = 0 then NaN else if 0 < x then NInf else PInf)"
| "float_mul PInf (Fin y) = (if y = 0 then NaN else if 0 < y then PInf else NInf)"
| "float_mul NInf (Fin y) = (if y = 0 then NaN else if 0 < y then NInf else PInf)"
| "float_mul PInf PInf = PInf"
| "float_mul NInf NInf = PInf"
| "float_mul PInf NInf = NInf"
| "float_mul NInf PInf = NInf"

text \<open>\<open>round(x)\<close> on a float: the nearest integer, ties to even.\<close>

fun py_round :: "pyfloat \<Rightarrow> error + int" where
  "py_round (Fin r) = Inr (rne r)"
| "py_round PInf = Inl OverflowError"
| "py_round NInf = Inl OverflowError"
| "py_round NaN = Inl ValueError"

text \<open>Both strategies evaluate the same expression, \<open>int(round(a / total * 100))\<close>:
  a true division of two \<open>int\<close>s, a float product with \<open>100\<close> (converted exactly to
  \<open>100.0\<close>), \<open>round\<close>, and \<open>int\<close>, the identity on the \<open>int\<close> that \<open>round\<close> returns.\<close>

definition round_percent :: "int \<Rightarrow> int \<Rightarrow> error + int" where
  "round_percent a divisor =
     and_then (int_truediv a divisor) (\<lambda>q. py_round (float_mul q (Fin 100)))"

subsection \<open>Parsed JSON\<close>

text \<open>What \<open>json.loads\<close> returns. A \<open>dict\<close> is an association list read with \<open>map_of\<close>.\<close>

datatype json =
    JNull
  | JBool bool
  | JInt int
  | JFloat pyfloat
  | JStr pystr
  | JList "json list"
  | JDict "(pystr \<times> json) list"

text \<open>\<open>data.get(key, default)\<close>; anything but a \<open>dict\<close> has no \<open>get\<close>.\<close>

fun dict_get :: "json \<Rightarrow> pystr \<Rightarrow> json \<Rightarrow> error + json" where
  "dict_get (JDict d) k dflt = Inr (case map_of d k of None \<Rightarrow> dflt | Some v \<Rightarrow> v)"
| "dict_get _ k dflt = Inl AttributeError"

text \<open>\<open>int(v)\<close>. Reading a \<open>str\<close> as an integer is Python's own parser, taken as the
  parameter \<open>int_str\<close>.\<close>

fun py_int :: "(pystr \<Rightarrow> error + int) \<Rightarrow> json \<Rightarrow> error + int" where
  "py_int int_str (JInt n) = Inr n"
| "py_int int_str (JBool b) = Inr (if b then 1 else 0)"
| "py_int int_str (JFloat (Fin r)) = Inr (if 0 \<le> r then \<lfloor>r\<rfloor> else \<lceil>r\<rceil>)"
| "py_int int_str (JFloat NaN) = Inl ValueError"
| "py_int int_str (JFloat _) = Inl OverflowError"
| "py_int int_str (JStr s) = int_str s"
| "py_int int_str _ = Inl TypeError"

text \<open>\<open>bool(v)\<close>.\<close>

fun py_bool :: "json \<Rightarrow> bool" where
  "py_bool JNull = False"
| "py_bool (JBool b) = b"
| "py_bool (JInt n) = (n \<noteq> 0)"
| "py_bool (JFloat (Fin r)) = (r \<noteq> 0)"
| "py_bool (JFloat _) = True"
| "py_bool (JStr s) = (s \<noteq> [])"
| "py_bool (JList xs) = (xs \<noteq> [])"
| "py_bool (JDict d) = (d \<noteq> [])"

text \<open>\<open>v.strip()\<close>; only a \<open>str\<close> has the method.\<close>

fun strip_of :: "json \<Rightarrow> error + pystr" where
  "strip_of (JStr s) = Inr (py_strip s)"
| "strip_of _ = Inl AttributeError"

text \<open>\<open>x or y\<close> on two \<open>int\<close>s.\<close>

definition or_int :: "int \<Rightarrow> int \<Rightarrow> int" where
  "or_int x y = (if x \<noteq> 0 then x else y)"

section \<open>The judgment\<close>

record Judgment =
  neutral_summary :: pystr
  a_responsibility :: int
  b_responsibility :: int
  advice_a :: pystr
  advice_b :: pystr
  apology_template :: pystr
  safety_flag :: bool
  safety_message :: pystr

section \<open>The fallback: \<open>get_judgment_mock\<close>\<close>

definition mock_neutral_summary :: pystr where
  "mock_neutral_summary =
     str_of ''From both perspectives, this looks like a mix of unmet expectations '' @
     str_of ''and communication gaps rather than one person being purely right or wrong. '' @
     str_of ''Both people had reasons for what they did, but those reasons weren'' @ [8217] @
     str_of ''t clearly shared.''"

definition mock_advice_a :: pystr where
  "mock_advice_a =
     str_of ''Try to name what you needed earlier and out loud. Instead of waiting and '' @
     str_of ''hoping they guess, say something like: '' @ [8220] @
     str_of ''This is important to me because'' @ [8230, 8221] @ str_of ''. '' @
     str_of ''That gives them a fair chance to respond.''"

definition mock_advice_b :: pystr where
  "mock_advice_b =
     str_of ''Acknowledge the impact of your actions, even if you didn'' @ [8217] @
     str_of ''t mean harm. '' @
     str_of ''You can say: '' @ [8220] @
     str_of ''I see how that hurt you, even though I didn'' @ [8217] @
     str_of ''t intend it.'' @ [8221] @ str_of '' '' @
     str_of ''Then share a bit of your own constraints calmly.''"

definition mock_apology_template :: pystr where
  "mock_apology_template =
     str_of ''Hey, I'' @ [8217] @ str_of ''ve been thinking about what happened. I'' @ [8217] @
     str_of ''m sorry for the part I played '' @
     str_of ''in how things went. I didn'' @ [8217] @
     str_of ''t mean to make you feel that way. Next time, I'' @ [8217] @ str_of ''ll '' @
     str_of ''try to be more clear about what I'' @ [8217] @
     str_of ''m thinking and I'' @ [8217] @ str_of ''ll check in with you sooner '' @
     str_of ''instead of letting the tension build up.''"

definition get_judgment_mock :: "pystr \<Rightarrow> pystr \<Rightarrow> pystr \<Rightarrow> error + Judgment" where
  "get_judgment_mock story_a story_b tone =
     (let len_a = int (length story_a);
          len_b = int (length story_b);
          total = max (len_a + len_b) 1
      in and_then (round_percent len_a total) (\<lambda>a_share.
         let b_share = 100 - a_share
         in Inr \<lparr>neutral_summary = mock_neutral_summary,
                 a_responsibility = a_share,
                 b_responsibility = b_share,
                 advice_a = mock_advice_a,
                 advice_b = mock_advice_b,
                 apology_template = mock_apology_template,
                 safety_flag = False,
                 safety_message = []\<rparr>))"

section \<open>The LLM strategy: \<open>get_judgment_llm\<close>\<close>

text \<open>
  What the program cannot decide is a parameter: \<open>create env n prompt\<close> is the outcome of
  the \<open>n\<close>-th call of \<open>client.chat.completions.create\<close> with the given user prompt (an
  exception, or the content of the first choice's message, which may be \<open>None\<close>),
  \<open>loads\<close> is \<open>json.loads\<close>, \<open>int_str\<close> is \<open>int\<close> on a \<open>str\<close>, \<open>print_out env n args\<close> is the
  outcome of \<open>print(*args)\<close> once \<open>n\<close> calls of the service have been made (it returns, or
  raises when standard output cannot take the text), and \<open>repr_exc\<close> is \<open>repr\<close> of a caught
  exception. The fixed system prompt, the model name and the temperature are constants of
  the request. An interrupt arriving between two statements is not modelled.
\<close>

record env =
  create :: "nat \<Rightarrow> pystr \<Rightarrow> error + pystr option"
  loads :: "pystr \<Rightarrow> error + json"
  int_str :: "pystr \<Rightarrow> error + int"
  print_out :: "nat \<Rightarrow> pystr list \<Rightarrow> error + unit"
  repr_exc :: "error \<Rightarrow> pystr"

text \<open>The first arguments of the two \<open>print\<close> calls.\<close>

definition raw_label :: pystr where
  "raw_label = str_of ''RAW LLM OUTPUT:''"

definition failed_label :: pystr where
  "failed_label = str_of ''LLM call failed, using mock judgment instead:''"

definition user_prompt :: "pystr \<Rightarrow> pystr \<Rightarrow> pystr \<Rightarrow> pystr" where
  "user_prompt story_a story_b tone =
     py_strip ([10] @ str_of ''Tone: '' @ tone @ [10, 10] @
       str_of ''Person A story:'' @ [10, 34, 34, 34] @ story_a @ [34, 34, 34, 10, 10, 10] @
       str_of ''Person B story:'' @ [10, 34, 34, 34] @ story_b @ [34, 34, 34] @
       str_of ''    '' @ [10] @ str_of ''    '')"

text \<open>The normalization of the two shares (lines 161 to 164 of the source).\<close>

definition normalize_shares :: "int \<Rightarrow> int \<Rightarrow> error + int \<times> int" where
  "normalize_shares a_resp b_resp =
     (let total = or_int (a_resp + b_resp) 1
      in and_then (round_percent a_resp total) (\<lambda>a_resp'.
         Inr (a_resp', 100 - a_resp')))"

text \<open>From the parsed response to the judgment (lines 158 to 175 of the source), in the
  source's order of evaluation.\<close>

definition judgment_of_data :: "(pystr \<Rightarrow> error + int) \<Rightarrow> json \<Rightarrow> error + Judgment" where
  "judgment_of_data istr data =
     and_then (dict_get data (str_of ''a_responsibility'') (JInt 50)) (\<lambda>va.
     and_then (py_int istr va) (\<lambda>a_resp.
     and_then (dict_get data (str_of ''b_responsibility'') (JInt 50)) (\<lambda>vb.
     and_then (py_int istr vb) (\<lambda>b_resp.
     and_then (normalize_shares a_resp b_resp) (\<lambda>(a_resp', b_resp').
     and_then (dict_get data (str_of ''neutral_summary'') (JStr [])) (\<lambda>v1.
     and_then (strip_of v1) (\<lambda>summary.
     and_then (dict_get data (str_of ''advice_a'') (JStr [])) (\<lambda>v2.
     and_then (strip_of v2) (\<lambda>adv_a.
     and_then (dict_get data (str_of ''advice_b'') (JStr [])) (\<lambda>v3.
     and_then (strip_of v3) (\<lambda>adv_b.
     and_then (dict_get data (str_of ''apology_template'') (JStr [])) (\<lambda>v4.
     and_then (strip_of v4) (\<lambda>apology.
     and_then (dict_get data (str_of ''safety_flag'') (JBool False)) (\<lambda>v5.
     and_then (dict_get data (str_of ''safety_message'') (JStr [])) (\<lambda>v6.
     and_then (strip_of v6) (\<lambda>message.
     Inr \<lparr>neutral_summary = summary,
          a_responsibility = a_resp',
          b_responsibility = b_resp',
          advice_a = adv_a,
          advice_b = adv_b,
          apology_template = apology,
          safety_flag = py_bool v5,
          safety_message = message\<rparr>))))))))))))))))"

text \<open>The state is the number of calls of the service made so far; the attempt makes one
  call, prints the stripped reply and parses it.\<close>

definition get_judgment_llm ::
  "env \<Rightarrow> pystr \<Rightarrow> pystr \<Rightarrow> pystr \<Rightarrow> nat \<Rightarrow> (error + Judgment) \<times> nat" where
  "get_judgment_llm env story_a story_b tone n =
     (and_then (create env n (user_prompt story_a story_b tone)) (\<lambda>content.
      and_then (case content of None \<Rightarrow> Inl AttributeError | Some c \<Rightarrow> Inr (py_strip c))
        (\<lambda>raw_text.
      and_then (print_out env (Suc n) [raw_label, raw_text]) (\<lambda>u.
      and_then (loads env raw_text) (\<lambda>data.
      judgment_of_data (int_str env) data)))),
      Suc n)"

section \<open>The oracle: \<open>get_judgment\<close>\<close>

text \<open>\<open>try\<close> ... \<open>except Exception as e\<close>: an exception of the attempt that is an
  \<open>Exception\<close> enters the handler, which prints a line with \<open>repr(e)\<close> and then returns the
  fallback's result; an exception raised by that \<open>print\<close>, and an exception of the attempt
  that is not an \<open>Exception\<close>, leave the function.\<close>

definition get_judgment ::
  "env \<Rightarrow> pystr \<Rightarrow> pystr \<Rightarrow> pystr \<Rightarrow> nat \<Rightarrow> (error + Judgment) \<times> nat" where
  "get_judgment env story_a story_b tone n =
     (case get_judgment_llm env story_a story_b tone n of
        (Inr j, n') \<Rightarrow> (Inr j, n')
      | (Inl e, n') \<Rightarrow>
          if is_exception e
          then (and_then (print_out env n' [failed_label, repr_exc env e]) (\<lambda>u.
                get_judgment_mock story_a story_b tone), n')
          else (Inl e, n'))"

section \<open>The specification's words, and example inputs\<close>

text \<open>The specification's normalization rule: \<open>total = a + b\<close>, treated as \<open>1\<close> when it
  is \<open>0\<close>.\<close>

definition spec_total :: "int \<Rightarrow> int \<Rightarrow> int" where
  "spec_total a b = (if a + b = 0 then 1 else a + b)"

text \<open>The specification's defaults: \<open>50\<close> for each responsibility, \<open>false\<close> for the
  safety flag, the empty string for every text field.\<close>

definition spec_field_default :: "pystr \<Rightarrow> json" where
  "spec_field_default k =
     (if k = str_of ''a_responsibility'' \<or> k = str_of ''b_responsibility'' then JInt 50
      else if k = str_of ''safety_flag'' then JBool False
      else JStr [])"

text \<open>A responsibility field that is an integer, or missing.\<close>

definition int_field :: "(pystr \<times> json) list \<Rightarrow> pystr \<Rightarrow> int option" where
  "int_field d k =
     (case map_of d k of None \<Rightarrow> Some 50 | Some (JInt n) \<Rightarrow> Some n | Some _ \<Rightarrow> None)"

text \<open>A text field that is a string, or missing.\<close>

definition text_field :: "(pystr \<times> json) list \<Rightarrow> pystr \<Rightarrow> pystr option" where
  "text_field d k =
     (case map_of d k of None \<Rightarrow> Some [] | Some (JStr s) \<Rightarrow> Some s | Some _ \<Rightarrow> None)"

definition text_fields_ok :: "(pystr \<times> json) list \<Rightarrow> bool" where
  "text_fields_ok d =
     (text_field d (str_of ''neutral_summary'') \<noteq> None \<and>
      text_field d (str_of ''advice_a'') \<noteq> None \<and>
      text_field d (str_of ''advice_b'') \<noteq> None \<and>
      text_field d (str_of ''apology_template'') \<noteq> None \<and>
      text_field d (str_of ''safety_message'') \<noteq> None)"

text \<open>No leading and no trailing whitespace.\<close>

definition trimmed :: "pystr \<Rightarrow> bool" where
  "trimmed s = (s = [] \<or> (\<not> isspace (hd s) \<and> \<not> isspace (last s)))"

text \<open>The two stories of the end-to-end scenario.\<close>

definition scenario_a :: pystr where
  "scenario_a = str_of ''We agreed to meet at 6 but they never showed up.''"

definition scenario_b :: pystr where
  "scenario_b = str_of ''I got stuck at work and forgot to text.''"

text \<open>An environment in which every request fails, and one in which the service answers
  with a fixed parsed response; in both every \<open>print\<close> returns.\<close>

definition no_int_str :: "pystr \<Rightarrow> error + int" where
  "no_int_str s = Inl ValueError"

definition failing_env :: env where
  "failing_env =
     \<lparr>create = (\<lambda>n p. Inl APIError), loads = (\<lambda>s. Inl JSONDecodeError), int_str = no_int_str,
      print_out = (\<lambda>n args. Inr ()), repr_exc = (\<lambda>e. str_of ''APIError()'')\<rparr>"

definition answering_env :: "json \<Rightarrow> env" where
  "answering_env data =
     \<lparr>create = (\<lambda>n p. Inr (Some [])), loads = (\<lambda>s. Inr data), int_str = no_int_str,
      print_out = (\<lambda>n args. Inr ()), repr_exc = (\<lambda>e. [])\<rparr>"

text \<open>An environment in which the request is interrupted from the keyboard; and one whose
  standard output encodes ASCII only, where the service replies with an owl (code point
  129417) and the \<open>repr\<close> of the resulting \<open>UnicodeEncodeError\<close> contains the reply.\<close>

definition interrupted_env :: env where
  "interrupted_env =
     \<lparr>create = (\<lambda>n p. Inl KeyboardInterrupt), loads = (\<lambda>s. Inl JSONDecodeError),
      int_str = no_int_str, print_out = (\<lambda>n args. Inr ()), repr_exc = (\<lambda>e. [])\<rparr>"

definition ascii_print :: "pystr list \<Rightarrow> error + unit" where
  "ascii_print args =
     (if list_all (list_all (\<lambda>c. c < 128)) args then Inr () else Inl UnicodeEncodeError)"

definition owl_reply :: pystr where
  "owl_reply = [129417]"

definition ascii_stdout_env :: env where
  "ascii_stdout_env =
     \<lparr>create = (\<lambda>n p. Inr (Some owl_reply)), loads = (\<lambda>s. Inl JSONDecodeError),
      int_str = no_int_str, print_out = (\<lambda>n args. ascii_print args),
      repr_exc = (\<lambda>e. str_of ''UnicodeEncodeError('' @ owl_reply @ str_of '')'')\<rparr>"

text \<open>A response whose shares are \<open>40\<close> and \<open>40\<close>, with one padded text field and no
  \<open>advice_a\<close>; one whose shares already add to \<open>100\<close>; one with a negative share; and
  one with a share beyond \<open>2 ^ 53\<close>.\<close>

definition response_40_40 :: "(pystr \<times> json) list" where
  "response_40_40 =
     [(str_of ''neutral_summary'', JStr ([32, 10] @ str_of ''Both were late.'' @ [32])),
      (str_of ''a_responsibility'', JInt 40),
      (str_of ''b_responsibility'', JInt 40),
      (str_of ''advice_b'', JStr (str_of ''Text first.'')),
      (str_of ''safety_flag'', JInt 1)]"

definition response_70_30 :: "(pystr \<times> json) list" where
  "response_70_30 =
     [(str_of ''a_responsibility'', JInt 70),
      (str_of ''b_responsibility'', JInt 30)]"

definition response_negative :: "(pystr \<times> json) list" where
  "response_negative =
     [(str_of ''a_responsibility'', JInt (- 50)),
      (str_of ''b_responsibility'', JInt 100)]"

definition response_huge :: "(pystr \<times> json) list" where
  "response_huge =
     [(str_of ''a_responsibility'', JInt 9007199254740993),
      (str_of ''b_responsibility'', JInt (- 9007199254740893))]"

text \<open>The judgment expected for \<open>response_40_40\<close>.\<close>

definition judgment_40_40 :: Judgment where
  "judgment_40_40 =
     \<lparr>neutral_summary = str_of ''Both were late.'',
      a_responsibility = 50,
      b_responsibility = 50,
      advice_a = [],
      advice_b = str_of ''Text first.'',
      apology_template = [],
      safety_flag = True,
      safety_message = []\<rparr>"

section \<open>Rounding: the facts the oracle relies on\<close>

subsection \<open>The binary logarithm\<close>

lemma ilog2_nonneg: "0 \<le> ilog2 n"
  by (induction n rule: ilog2.induct) (subst ilog2.simps, simp)

lemma ilog2_bounds:
  "1 \<le> n \<Longrightarrow> 2 ^ nat (ilog2 n) \<le> n \<and> n < 2 * 2 ^ nat (ilog2 n)"
proof (induction n rule: ilog2.induct)
  case (1 n)
  show ?case
  proof (cases "n < 2")
    case True
    with "1.prems" have "n = 1" by simp
    then show ?thesis by (subst (1 2) ilog2.simps) simp
  next
    case False
    then have h: "1 \<le> n div 2" by simp
    from "1.IH" [OF False h]
    have lo: "2 ^ nat (ilog2 (n div 2)) \<le> n div 2"
      and hi: "n div 2 < 2 * 2 ^ nat (ilog2 (n div 2))" by simp_all
    have e: "ilog2 n = 1 + ilog2 (n div 2)"
      using False by (subst ilog2.simps) simp
    have p: "(2::int) ^ nat (ilog2 n) = 2 * 2 ^ nat (ilog2 (n div 2))"
      using ilog2_nonneg [of "n div 2"] by (simp add: e nat_add_distrib)
    from lo hi show ?thesis unfolding p by linarith
  qed
qed

lemma flog2_bounds:
  assumes "x \<noteq> 0"
  shows "2 powi flog2 x \<le> \<bar>x\<bar>" and "\<bar>x\<bar> < 2 powi (flog2 x + 1)"
proof -
  obtain p q where pq: "quotient_of \<bar>x\<bar> = (p, q)" by (cases "quotient_of \<bar>x\<bar>")
  have q0: "0 < q" using quotient_of_denom_pos [OF pq] .
  have xe: "\<bar>x\<bar> = of_int p / of_int q" using quotient_of_div [OF pq] .
  have "0 < \<bar>x\<bar>" using assms by simp
  then have p0: "0 < p" using q0 unfolding xe by (simp add: zero_less_divide_iff)
  define lp where "lp = ilog2 p"
  define lq where "lq = ilog2 q"
  have lp0: "0 \<le> lp" and lq0: "0 \<le> lq" by (simp_all add: lp_def lq_def ilog2_nonneg)
  have bp: "2 ^ nat lp \<le> p" "p < 2 * 2 ^ nat lp"
    using ilog2_bounds [of p] p0 by (simp_all add: lp_def)
  have bq: "2 ^ nat lq \<le> q" "q < 2 * 2 ^ nat lq"
    using ilog2_bounds [of q] q0 by (simp_all add: lq_def)
  have "(of_int (2 ^ nat lp) :: rat) \<le> of_int p" "(of_int p :: rat) < of_int (2 * 2 ^ nat lp)"
    using bp by (simp_all only: of_int_le_iff of_int_less_iff)
  then have rp: "(2::rat) ^ nat lp \<le> of_int p" "(of_int p :: rat) < 2 * 2 ^ nat lp"
    by simp_all
  have "(of_int (2 ^ nat lq) :: rat) \<le> of_int q" "(of_int q :: rat) < of_int (2 * 2 ^ nat lq)"
    using bq by (simp_all only: of_int_le_iff of_int_less_iff)
  then have rq: "(2::rat) ^ nat lq \<le> of_int q" "(of_int q :: rat) < 2 * 2 ^ nat lq"
    by simp_all
  have pl: "(2::rat) powi lp = 2 ^ nat lp" and ql: "(2::rat) powi lq = 2 ^ nat lq"
    using lp0 lq0 by (simp_all add: power_int_def)
  have e1: "(2::rat) powi (lp - lq - 1) = 2 ^ nat lp / (2 * 2 ^ nat lq)"
    by (simp add: power_int_diff pl ql)
  have e2: "(2::rat) powi (lp - lq + 1) = (2 * 2 ^ nat lp) / 2 ^ nat lq"
    by (simp add: power_int_diff power_int_add pl ql)
  have lower: "2 powi (lp - lq - 1) \<le> \<bar>x\<bar>"
    unfolding e1 xe using rp rq q0 p0 by (intro frac_le) simp_all
  have upper: "\<bar>x\<bar> < 2 powi (lp - lq + 1)"
    unfolding e2 xe using rp rq p0 by (intro frac_less) simp_all
  have f: "flog2 x = (if 2 powi (lp - lq) \<le> \<bar>x\<bar> then lp - lq else lp - lq - 1)"
    by (simp add: flog2_def pq lp_def lq_def Let_def)
  show "2 powi flog2 x \<le> \<bar>x\<bar>" using lower by (simp add: f)
  show "\<bar>x\<bar> < 2 powi (flog2 x + 1)" using upper by (auto simp add: f not_le)
qed

lemma flog2_le:
  assumes "x \<noteq> 0" and "\<bar>x\<bar> < 2 powi k"
  shows "flog2 x < k"
proof (rule ccontr)
  assume "\<not> flog2 x < k"
  then have "k \<le> flog2 x" by simp
  then have "(2::rat) powi k \<le> 2 powi flog2 x" by (intro power_int_increasing) simp_all
  with flog2_bounds(1) [OF assms(1)] assms(2) show False by linarith
qed

lemma flog2_ge:
  assumes "x \<noteq> 0" and "2 powi k \<le> \<bar>x\<bar>"
  shows "k \<le> flog2 x"
proof (rule ccontr)
  assume "\<not> k \<le> flog2 x"
  then have "flog2 x + 1 \<le> k" by simp
  then have "(2::rat) powi (flog2 x + 1) \<le> 2 powi k" by (intro power_int_increasing) simp_all
  with flog2_bounds(2) [OF assms(1)] assms(2) show False by linarith
qed

subsection \<open>Rounding to the nearest integer\<close>

lemma rne_of_int: "rne (of_int n) = n"
  by (simp add: rne_def)

lemma rne_lower: "of_int (rne r) \<le> r + 1 / 2"
  unfolding rne_def Let_def by (auto; linarith)

lemma rne_upper: "r - 1 / 2 \<le> of_int (rne r)"
  unfolding rne_def Let_def by (auto; linarith)

lemma rne_err: "\<bar>of_int (rne r) - r\<bar> \<le> 1 / 2"
  using rne_lower [of r] rne_upper [of r] by linarith

lemma rne_unique:
  assumes "\<bar>r - of_int n\<bar> < 1 / 2"
  shows "rne r = n"
proof -
  have "\<bar>(of_int (rne r) :: rat) - of_int n\<bar> < 1"
    using assms rne_err [of r] by linarith
  then have "\<bar>(of_int (rne r - n) :: rat)\<bar> < 1" by simp
  then have "\<bar>rne r - n\<bar> < 1"
    by (metis of_int_abs of_int_less_1_iff)
  then show ?thesis by linarith
qed

lemma rne_le_int: "r \<le> of_int n \<Longrightarrow> rne r \<le> n"
  unfolding rne_def Let_def
  by (auto simp: floor_le_iff; linarith)

lemma rne_ge_int: "of_int n \<le> r \<Longrightarrow> n \<le> rne r"
  unfolding rne_def Let_def
  by (auto simp: le_floor_iff; linarith)

subsection \<open>Rounding to the nearest float\<close>

lemma fl_nonneg:
  assumes "0 \<le> x"
  shows "0 \<le> fl x"
proof (cases "x = 0")
  case True
  then show ?thesis by (simp add: fl_def)
next
  case False
  define q where "q = max (flog2 x - 52) (- 1074)"
  have "(of_int 0 :: rat) \<le> x / 2 powi q" using assms by simp
  then have "0 \<le> rne (x / 2 powi q)" by (rule rne_ge_int)
  then have "(0::rat) \<le> of_int (rne (x / 2 powi q)) * 2 powi q" by simp
  then show ?thesis using False by (simp add: fl_def q_def Let_def)
qed

lemma fl_le_int:
  assumes "0 < x" and "x \<le> of_int c" and "c < 2 ^ 53"
  shows "fl x \<le> of_int c"
proof -
  define q where "q = max (flog2 x - 52) (- 1074)"
  have x0: "x \<noteq> 0" using assms(1) by simp
  have "(of_int c :: rat) < of_int (2 ^ 53)" using assms(3) by (simp only: of_int_less_iff)
  then have "\<bar>x\<bar> < 2 powi 53" using assms(1,2) by simp
  then have "flog2 x < 53" by (rule flog2_le [OF x0])
  then have q0: "q \<le> 0" by (simp add: q_def)
  define k where "k = nat (- q)"
  have pq: "(2::rat) powi q = 1 / 2 ^ k"
    using q0 by (simp add: power_int_def k_def field_simps)
  have "x / 2 powi q = x * 2 ^ k" by (simp add: pq)
  also have "\<dots> \<le> of_int c * 2 ^ k" using assms(2) by simp
  also have "\<dots> = of_int (c * 2 ^ k)" by simp
  finally have "rne (x / 2 powi q) \<le> c * 2 ^ k" by (rule rne_le_int)
  then have "(of_int (rne (x / 2 powi q)) :: rat) \<le> of_int (c * 2 ^ k)"
    by (simp only: of_int_le_iff)
  then have "(of_int (rne (x / 2 powi q)) :: rat) * 2 powi q \<le> of_int c"
    by (simp add: pq field_simps)
  then show ?thesis using x0 by (simp add: fl_def q_def Let_def)
qed

lemma fl_err:
  assumes "x \<noteq> 0" and "2 powi (- 1022) \<le> \<bar>x\<bar>"
  shows "\<bar>fl x - x\<bar> \<le> \<bar>x\<bar> / 2 ^ 53"
proof -
  define e where "e = flog2 x"
  have "- 1022 \<le> e" unfolding e_def using assms by (rule flog2_ge)
  then have q: "max (e - 52) (- 1074) = e - 52" by simp
  define p where "p = (2::rat) powi (e - 52)"
  have p0: "0 < p" by (simp add: p_def)
  have f: "fl x = of_int (rne (x / p)) * p"
    using assms(1) by (simp add: fl_def Let_def q p_def flip: e_def)
  have "\<bar>of_int (rne (x / p)) - x / p\<bar> \<le> 1 / 2" by (rule rne_err)
  then have "\<bar>of_int (rne (x / p)) - x / p\<bar> * p \<le> 1 / 2 * p"
    using p0 by (intro mult_right_mono) simp_all
  moreover have "\<bar>of_int (rne (x / p)) - x / p\<bar> * p = \<bar>fl x - x\<bar>"
  proof -
    have "\<bar>of_int (rne (x / p)) - x / p\<bar> * p = \<bar>(of_int (rne (x / p)) - x / p) * p\<bar>"
      using p0 by (simp add: abs_mult)
    also have "(of_int (rne (x / p)) - x / p) * p = fl x - x"
      using p0 by (simp add: f field_simps)
    finally show ?thesis .
  qed
  ultimately have a: "\<bar>fl x - x\<bar> \<le> p / 2" by simp
  have "p / 2 = 2 powi e / 2 ^ 53"
    by (simp add: p_def power_int_diff)
  also have "\<dots> \<le> \<bar>x\<bar> / 2 ^ 53"
    using flog2_bounds(1) [OF assms(1)] by (simp add: e_def divide_right_mono)
  finally show ?thesis using a by linarith
qed

lemma float_of_rat_Fin:
  assumes "\<bar>fl x\<bar> \<le> b" and "b < 2 ^ 1024"
  shows "float_of_rat x = Fin (fl x)"
proof -
  have "fl x < 2 ^ 1024" and "- (2 ^ 1024) < fl x" using assms by linarith+
  then show ?thesis by (simp add: float_of_rat_def Let_def not_le)
qed

text \<open>The overflow test by exponents, for evaluation.\<close>

lemma float_of_rat_code [code]:
  "float_of_rat x =
     (let r = fl x
      in if r \<noteq> 0 \<and> 1024 \<le> flog2 r then (if 0 < r then PInf else NInf) else Fin r)"
proof (cases "fl x = 0")
  case True
  then show ?thesis by (simp add: float_of_rat_def)
next
  case False
  have p: "(2::rat) powi 1024 = 2 ^ 1024" by (simp add: power_int_def)
  have e: "1024 \<le> flog2 (fl x) \<longleftrightarrow> 2 ^ 1024 \<le> \<bar>fl x\<bar>"
  proof
    assume "1024 \<le> flog2 (fl x)"
    then have "\<not> flog2 (fl x) < 1024" by simp
    then have "\<not> \<bar>fl x\<bar> < 2 powi 1024" using flog2_le [OF False] by blast
    then show "2 ^ 1024 \<le> \<bar>fl x\<bar>" by (simp add: p)
  next
    assume "2 ^ 1024 \<le> \<bar>fl x\<bar>"
    then have "2 powi 1024 \<le> \<bar>fl x\<bar>" by (simp only: p)
    then show "1024 \<le> flog2 (fl x)" by (rule flog2_ge [OF False])
  qed
  have pos: "(0::rat) < 2 ^ 1024" by simp
  show ?thesis
  proof (cases "2 ^ 1024 \<le> \<bar>fl x\<bar>")
    case True
    then show ?thesis
      using False e pos by (auto simp add: float_of_rat_def Let_def abs_if not_le split: if_splits)
  next
    case False
    then have "\<not> 2 ^ 1024 \<le> fl x" and "\<not> fl x \<le> - (2 ^ 1024)" by linarith+
    then show ?thesis using False e by (simp add: float_of_rat_def Let_def)
  qed
qed

lemma fl_unit:
  assumes "0 \<le> x" and "x \<le> of_int c" and "0 \<le> c" and "c < 2 ^ 53"
  shows "0 \<le> fl x \<and> fl x \<le> of_int c"
proof (cases "x = 0")
  case True
  then show ?thesis using assms(3) by (simp add: fl_def)
next
  case False
  then have "0 < x" using assms(1) by simp
  then show ?thesis using fl_le_int [OF _ assms(2,4)] fl_nonneg [OF assms(1)] by simp
qed

lemma big_1024: "(100::rat) < 2 ^ 1024"
proof -
  have "(100::rat) < 2 ^ 7" by simp
  also have "\<dots> \<le> 2 ^ 1024" by (rule power_increasing) simp_all
  finally show ?thesis .
qed

subsection \<open>The rounded percentage\<close>

lemma round_percent_range:
  assumes "0 \<le> a" and "a \<le> t" and "1 \<le> t"
  shows "\<exists>r. round_percent a t = Inr r \<and> 0 \<le> r \<and> r \<le> 100"
proof -
  define x :: rat where "x = of_int a / of_int t"
  have x01: "0 \<le> x" "x \<le> of_int 1"
    using assms by (simp_all add: x_def)
  have y01: "0 \<le> fl x \<and> fl x \<le> of_int 1"
    by (rule fl_unit [OF x01]) simp_all
  then have "\<bar>fl x\<bar> \<le> 100" by simp
  then have fx: "float_of_rat x = Fin (fl x)" using big_1024 by (rule float_of_rat_Fin)
  have d: "int_truediv a t = Inr (Fin (fl x))"
    using assms(3) fx by (simp add: int_truediv_def x_def)
  define z where "z = fl x * 100"
  have z01: "0 \<le> z" "z \<le> of_int 100" using y01 by (simp_all add: z_def)
  have w01: "0 \<le> fl z \<and> fl z \<le> of_int 100"
    by (rule fl_unit [OF z01]) simp_all
  then have "\<bar>fl z\<bar> \<le> 100" by simp
  then have fz: "float_of_rat z = Fin (fl z)" using big_1024 by (rule float_of_rat_Fin)
  have r: "py_round (float_mul (Fin (fl x)) (Fin 100)) = Inr (rne (fl z))"
    by (simp add: fz flip: z_def)
  have "(of_int 0 :: rat) \<le> fl z" using w01 by simp
  then have r0: "0 \<le> rne (fl z)" by (rule rne_ge_int)
  have r1: "rne (fl z) \<le> 100" using w01 by (intro rne_le_int) simp
  show ?thesis using r r0 r1 by (simp add: round_percent_def and_then_def d)
qed

lemma round_percent_identity:
  assumes "\<bar>a\<bar> \<le> 2 ^ 50"
  shows "round_percent a 100 = Inr a"
proof (cases "a = 0")
  case True
  have "float_of_rat 0 = Fin 0" by (simp add: float_of_rat_def fl_def)
  then show ?thesis
    using True by (simp add: round_percent_def and_then_def int_truediv_def rne_def)
next
  case False
  define A :: rat where "A = \<bar>of_int a\<bar>"
  have "(of_int \<bar>a\<bar> :: rat) \<le> of_int (2 ^ 50)" using assms by (simp only: of_int_le_iff)
  then have A50: "A \<le> 2 ^ 50" by (simp add: A_def)
  have "(of_int 1 :: rat) \<le> of_int \<bar>a\<bar>" using False by (simp only: of_int_le_iff)
  then have A1: "1 \<le> A" by (simp add: A_def)
  define x :: rat where "x = of_int a / 100"
  have ax: "\<bar>x\<bar> = A / 100" by (simp add: x_def A_def)
  have x0: "x \<noteq> 0" using False by (simp add: x_def)
  have "(2::rat) powi (- 1022) \<le> 2 powi (- 7)" by (rule power_int_increasing) simp_all
  also have "\<dots> \<le> \<bar>x\<bar>" using A1 by (simp add: ax power_int_minus)
  finally have xn: "2 powi (- 1022) \<le> \<bar>x\<bar>" .
  have ex: "\<bar>fl x - x\<bar> \<le> A / 100 / 2 ^ 53" using fl_err [OF x0 xn] by (simp add: ax)
  define z where "z = fl x * 100"
  have ez: "\<bar>z - of_int a\<bar> \<le> A / 2 ^ 53"
  proof -
    define d where "d = fl x - x"
    have "z - of_int a = d * 100" by (simp add: z_def x_def d_def algebra_simps)
    then have "\<bar>z - of_int a\<bar> = \<bar>d\<bar> * 100" by (simp add: abs_mult)
    then have "\<bar>z - of_int a\<bar> = \<bar>fl x - x\<bar> * 100" by (simp only: d_def)
    then show ?thesis using ex by simp
  qed
  have zlo: "A / 2 \<le> \<bar>z\<bar>"
  proof -
    have "A / 2 ^ 53 \<le> A / 2" using A1 by (simp add: field_simps)
    then have "\<bar>z - of_int a\<bar> \<le> A / 2" using ez by linarith
    then show ?thesis unfolding A_def by linarith
  qed
  have zhi: "\<bar>z\<bar> \<le> 2 * A"
  proof -
    have "A / 2 ^ 53 \<le> A" using A1 by (simp add: field_simps)
    then have "\<bar>z - of_int a\<bar> \<le> A" using ez by linarith
    then show ?thesis unfolding A_def by linarith
  qed
  have z0: "z \<noteq> 0" using zlo A1 by auto
  have "(2::rat) powi (- 1022) \<le> 2 powi (- 1)" by (rule power_int_increasing) simp_all
  also have "\<dots> \<le> \<bar>z\<bar>" using A1 zlo by (simp add: power_int_minus)
  finally have zn: "2 powi (- 1022) \<le> \<bar>z\<bar>" .
  have "\<bar>fl z - z\<bar> \<le> \<bar>z\<bar> / 2 ^ 53" by (rule fl_err [OF z0 zn])
  also have "\<dots> \<le> 2 * A / 2 ^ 53" using zhi by (simp add: divide_right_mono)
  finally have efz: "\<bar>fl z - z\<bar> \<le> 2 * A / 2 ^ 53" .
  define u where "u = A / 2 ^ 53"
  have "\<bar>fl z - z\<bar> \<le> 2 * u" "\<bar>z - of_int a\<bar> \<le> u"
    using efz ez by (simp_all add: u_def)
  then have "\<bar>fl z - of_int a\<bar> \<le> 3 * u" by linarith
  then have "\<bar>fl z - of_int a\<bar> \<le> 3 * A / 2 ^ 53" by (simp add: u_def)
  also have "\<dots> \<le> 3 * 2 ^ 50 / 2 ^ 53" using A50 by (simp add: divide_right_mono)
  also have "\<dots> < 1 / 2" by simp
  finally have near: "\<bar>fl z - of_int a\<bar> < 1 / 2" .
  then have rz: "rne (fl z) = a" by (rule rne_unique)
  have lim: "(2::rat) ^ 52 < 2 ^ 1024" by (rule power_strict_increasing) simp_all
  have "A / 100 / 2 ^ 53 \<le> A" using A1 by (simp add: field_simps)
  then have "\<bar>fl x - x\<bar> \<le> A" using ex by linarith
  moreover have "\<bar>x\<bar> \<le> A" using A1 by (simp add: ax)
  ultimately have "\<bar>fl x\<bar> \<le> 2 * A" by linarith
  then have "\<bar>fl x\<bar> \<le> 2 ^ 52" using A50 by simp
  then have fx: "float_of_rat x = Fin (fl x)" using lim by (rule float_of_rat_Fin)
  have "\<bar>fl z\<bar> \<le> A + 1" using near unfolding A_def by linarith
  then have "\<bar>fl z\<bar> \<le> 2 ^ 52" using A50 by simp
  then have fz: "float_of_rat z = Fin (fl z)" using lim by (rule float_of_rat_Fin)
  have d: "int_truediv a 100 = Inr (Fin (fl x))"
    using fx by (simp add: int_truediv_def x_def)
  have r: "py_round (float_mul (Fin (fl x)) (Fin 100)) = Inr a"
    by (simp add: fz rz flip: z_def)
  show ?thesis using r by (simp add: round_percent_def and_then_def d)
qed

lemma round_percent_nearest:
  assumes "0 \<le> a" and "a \<le> t" and "1 \<le> t" and "t \<le> 2 ^ 43"
    and "round_percent a t = Inr r"
  shows "\<bar>of_int r - 100 * of_int a / (of_int t :: rat)\<bar> \<le> 1 / 2"
proof (cases "a = 0")
  case True
  have "round_percent 0 t = Inr 0"
  proof -
    have "float_of_rat 0 = Fin 0" by (simp add: float_of_rat_def fl_def)
    then show ?thesis
      using assms(3) by (simp add: round_percent_def and_then_def int_truediv_def rne_def)
  qed
  then show ?thesis using assms(5) True by simp
next
  case False
  define T :: rat where "T = of_int t"
  define x :: rat where "x = of_int a / T"
  have "(of_int 1 :: rat) \<le> of_int t" using assms(3) by (simp only: of_int_le_iff)
  then have T1: "1 \<le> T" by (simp add: T_def)
  have "(of_int t :: rat) \<le> of_int (2 ^ 43)" using assms(4) by (simp only: of_int_le_iff)
  then have T43: "T \<le> 2 ^ 43" by (simp add: T_def)
  have "1 \<le> a" using assms(1) False by simp
  then have "(of_int 1 :: rat) \<le> of_int a" by (simp only: of_int_le_iff)
  then have A1: "(1::rat) \<le> of_int a" by simp
  have "(of_int a :: rat) \<le> of_int t" using assms(2) by (simp only: of_int_le_iff)
  then have AT: "(of_int a :: rat) \<le> T" by (simp add: T_def)
  have x1: "x \<le> 1" using AT T1 by (simp add: x_def)
  define c :: rat where "c = 1 / 2 ^ 43"
  have c0: "0 < c" by (simp add: c_def)
  have cp: "(2::rat) powi (- 1022) \<le> c"
  proof -
    have "(2::rat) powi (- 1022) \<le> 2 powi (- 43)" by (rule power_int_increasing) simp_all
    also have "\<dots> = c" by (simp add: c_def power_int_minus field_simps)
    finally show ?thesis .
  qed
  have xlo: "c \<le> x"
  proof -
    have "c \<le> 1 / T" unfolding c_def using T43 T1 by (intro frac_le) simp_all
    also have "\<dots> \<le> x" using A1 T1 by (simp add: x_def divide_right_mono)
    finally show ?thesis .
  qed
  have xpos: "0 < x" using xlo c0 by linarith
  then have x0: "x \<noteq> 0" by simp
  have "2 powi (- 1022) \<le> \<bar>x\<bar>" using cp xlo by linarith
  from fl_err [OF x0 this] have ex: "\<bar>fl x - x\<bar> \<le> x / 2 ^ 53" using xpos by simp
  define u :: rat where "u = 1 / 2 ^ 53"
  have u0: "0 < u" and u1: "u \<le> 1" by (simp_all add: u_def)
  have ex': "\<bar>fl x - x\<bar> \<le> x * u" using ex by (simp add: u_def)
  have "x * u \<le> 1 * u" using x1 u0 by (intro mult_right_mono) simp_all
  then have exu: "\<bar>fl x - x\<bar> \<le> u" using ex' by simp
  define z where "z = fl x * 100"
  have ez: "\<bar>z - 100 * x\<bar> \<le> 100 * u"
  proof -
    define d where "d = fl x - x"
    have "z - 100 * x = d * 100" by (simp add: z_def d_def algebra_simps)
    then have "\<bar>z - 100 * x\<bar> = \<bar>d\<bar> * 100" by (simp add: abs_mult)
    then show ?thesis using exu by (simp add: d_def)
  qed
  have "x * u \<le> x * (1 / 2)" using xpos by (intro mult_left_mono) (simp_all add: u_def)
  then have "x / 2 \<le> fl x" using ex' by linarith
  then have zlo: "50 * x \<le> z" by (simp add: z_def)
  then have zpos: "0 < z" using xpos by linarith
  then have z0: "z \<noteq> 0" by simp
  have "fl x \<le> x + u" using exu by linarith
  then have "fl x \<le> 2" using x1 u1 by linarith
  then have zhi: "z \<le> 200" by (simp add: z_def)
  have "2 powi (- 1022) \<le> \<bar>z\<bar>" using cp xlo zlo by linarith
  from fl_err [OF z0 this] have "\<bar>fl z - z\<bar> \<le> z * u" using zpos by (simp add: u_def)
  moreover have "z * u \<le> 200 * u" using zhi u0 by (intro mult_right_mono) simp_all
  ultimately have efz: "\<bar>fl z - z\<bar> \<le> 200 * u" by linarith
  have near: "\<bar>fl z - 100 * x\<bar> \<le> 300 * u" using efz ez by linarith
  have lim: "(2::rat) ^ 9 < 2 ^ 1024" by (rule power_strict_increasing) simp_all
  have "\<bar>fl x\<bar> \<le> 2 ^ 9" using \<open>fl x \<le> 2\<close> \<open>x / 2 \<le> fl x\<close> xpos by simp
  then have fx: "float_of_rat x = Fin (fl x)" using lim by (rule float_of_rat_Fin)
  have "u * 300 \<le> 1 * 300" using u1 by (intro mult_right_mono) simp_all
  then have "\<bar>fl z\<bar> \<le> 2 ^ 9" using near x1 xpos by (simp add: abs_le_iff)
  then have fz: "float_of_rat z = Fin (fl z)" using lim by (rule float_of_rat_Fin)
  have t0: "t \<noteq> 0" using assms(3) by simp
  have "round_percent a t = Inr (rne (fl z))"
    using t0 fx fz by (simp add: round_percent_def and_then_def int_truediv_def z_def x_def T_def)
  then have r: "r = rne (fl z)" using assms(5) by simp
  have "\<bar>of_int r - fl z\<bar> \<le> 1 / 2" unfolding r by (rule rne_err)
  then have b: "\<bar>of_int r - 100 * x\<bar> \<le> 1 / 2 + 300 * u" using near by linarith
  define D where "D = r * t - 100 * a"
  have DT: "of_int D = (of_int r - 100 * x) * T"
    using T1 by (simp add: D_def x_def T_def algebra_simps)
  define e where "e = \<bar>of_int r - 100 * x\<bar>"
  have be: "e \<le> 1 / 2 + 300 * u" using b by (simp add: e_def)
  have DE: "\<bar>(of_int D :: rat)\<bar> = e * T"
    using T1 by (simp add: DT abs_mult e_def)
  have "e * T \<le> (1 / 2 + 300 * u) * T" using be T1 by (intro mult_right_mono) simp_all
  then have d1: "2 * (e * T) \<le> T + 600 * u * T" by (simp add: algebra_simps)
  have d2: "600 * u * T < 1"
  proof -
    have "600 * u * T \<le> 600 * u * 2 ^ 43" using T43 u0 by (intro mult_left_mono) simp_all
    also have "\<dots> < 1" by (simp add: u_def)
    finally show ?thesis .
  qed
  have "2 * (e * T) < T + 1" using d1 d2 by linarith
  then have "2 * \<bar>(of_int D :: rat)\<bar> < T + 1" by (simp only: DE)
  then have "(of_int (2 * \<bar>D\<bar>) :: rat) < of_int (t + 1)" by (simp add: T_def)
  then have "2 * \<bar>D\<bar> < t + 1" by (simp only: of_int_less_iff)
  then have "2 * \<bar>D\<bar> \<le> t" by simp
  then have "(of_int (2 * \<bar>D\<bar>) :: rat) \<le> of_int t" by (simp only: of_int_le_iff)
  then have "2 * \<bar>(of_int D :: rat)\<bar> \<le> T" by (simp add: T_def)
  then have "2 * (e * T) \<le> T" by (simp only: DE)
  then have "e * T \<le> (1 / 2) * T" by linarith
  moreover have "0 < T" using T1 by linarith
  ultimately have "e \<le> 1 / 2" by (rule mult_right_le_imp_le)
  then have "\<bar>of_int r - 100 * (of_int a / (of_int t :: rat))\<bar> \<le> 1 / 2"
    by (simp only: e_def x_def T_def)
  then show ?thesis by simp
qed

lemma round_percent_half:
  assumes "a \<noteq> 0"
  shows "round_percent a (a + a) = Inr 50"
proof -
  have q: "(of_int a :: rat) / of_int (a + a) = 1 / 2" using assms by simp
  have h: "float_of_rat (1 / 2) = Fin (1 / 2)" by code_simp
  have r: "py_round (float_of_rat 50) = Inr 50" by code_simp
  have "a + a \<noteq> 0" using assms by simp
  then have d: "int_truediv a (a + a) = Inr (Fin (1 / 2))"
    by (simp only: int_truediv_def q h) simp
  show ?thesis by (simp only: round_percent_def d) (simp add: and_then_def r)
qed

lemma round_percent_0: "round_percent 0 1 = Inr 0"
  by code_simp

lemma round_percent_30_70: "round_percent 30 100 = Inr 30"
  by code_simp


section \<open>The structure of the three functions\<close>

lemma and_then_Inr_iff: "and_then m f = Inr y \<longleftrightarrow> (\<exists>x. m = Inr x \<and> f x = Inr y)"
  by (cases m) (simp_all add: and_then_def)

lemma mock_share:
  "\<exists>r. round_percent (int (length story_a))
         (max (int (length story_a) + int (length story_b)) 1) = Inr r \<and> 0 \<le> r \<and> r \<le> 100"
  by (rule round_percent_range) simp_all

lemma get_judgment_mock_Inr:
  assumes "round_percent (int (length story_a))
             (max (int (length story_a) + int (length story_b)) 1) = Inr r"
  shows "get_judgment_mock story_a story_b tone =
           Inr \<lparr>neutral_summary = mock_neutral_summary,
                a_responsibility = r,
                b_responsibility = 100 - r,
                advice_a = mock_advice_a,
                advice_b = mock_advice_b,
                apology_template = mock_apology_template,
                safety_flag = False,
                safety_message = []\<rparr>"
  using assms by (simp add: get_judgment_mock_def Let_def and_then_def)

lemma get_judgment_mock_total:
  "\<exists>j. get_judgment_mock story_a story_b tone = Inr j \<and>
       round_percent (int (length story_a))
         (max (int (length story_a) + int (length story_b)) 1) = Inr (a_responsibility j) \<and>
       b_responsibility j = 100 - a_responsibility j \<and>
       0 \<le> a_responsibility j \<and> a_responsibility j \<le> 100"
proof -
  obtain r where r: "round_percent (int (length story_a))
         (max (int (length story_a) + int (length story_b)) 1) = Inr r" "0 \<le> r" "r \<le> 100"
    using mock_share by blast
  show ?thesis using get_judgment_mock_Inr [OF r(1)] r by simp
qed

lemma normalize_shares_Inr:
  "normalize_shares a b = Inr (a', b') \<longleftrightarrow> round_percent a (or_int (a + b) 1) = Inr a' \<and> b' = 100 - a'"
  by (auto simp add: normalize_shares_def Let_def and_then_Inr_iff)

lemma judgment_of_data_Inr_iff:
  "judgment_of_data istr data = Inr j \<longleftrightarrow>
     (\<exists>va a vb b a' b' v1 s1 v2 s2 v3 s3 v4 s4 v5 v6 s6.
        dict_get data (str_of ''a_responsibility'') (JInt 50) = Inr va \<and>
        py_int istr va = Inr a \<and>
        dict_get data (str_of ''b_responsibility'') (JInt 50) = Inr vb \<and>
        py_int istr vb = Inr b \<and>
        normalize_shares a b = Inr (a', b') \<and>
        dict_get data (str_of ''neutral_summary'') (JStr []) = Inr v1 \<and>
        strip_of v1 = Inr s1 \<and>
        dict_get data (str_of ''advice_a'') (JStr []) = Inr v2 \<and>
        strip_of v2 = Inr s2 \<and>
        dict_get data (str_of ''advice_b'') (JStr []) = Inr v3 \<and>
        strip_of v3 = Inr s3 \<and>
        dict_get data (str_of ''apology_template'') (JStr []) = Inr v4 \<and>
        strip_of v4 = Inr s4 \<and>
        dict_get data (str_of ''safety_flag'') (JBool False) = Inr v5 \<and>
        dict_get data (str_of ''safety_message'') (JStr []) = Inr v6 \<and>
        strip_of v6 = Inr s6 \<and>
        j = \<lparr>neutral_summary = s1, a_responsibility = a', b_responsibility = b',
             advice_a = s2, advice_b = s3, apology_template = s4,
             safety_flag = py_bool v5, safety_message = s6\<rparr>)"
  by (simp only: judgment_of_data_def and_then_Inr_iff split_paired_Ex case_prod_conv
        sum.inject) blast

lemma judgment_of_data_shares:
  assumes "judgment_of_data istr data = Inr j"
  shows "\<exists>va vb a b. dict_get data (str_of ''a_responsibility'') (JInt 50) = Inr va \<and>
           py_int istr va = Inr a \<and>
           dict_get data (str_of ''b_responsibility'') (JInt 50) = Inr vb \<and>
           py_int istr vb = Inr b \<and>
           normalize_shares a b = Inr (a_responsibility j, b_responsibility j)"
  using assms unfolding judgment_of_data_Inr_iff by auto

lemma judgment_of_data_sum:
  assumes "judgment_of_data istr data = Inr j"
  shows "a_responsibility j + b_responsibility j = 100"
  using judgment_of_data_shares [OF assms] by (auto simp add: normalize_shares_Inr)

lemma get_judgment_llm_Inr:
  assumes "fst (get_judgment_llm env story_a story_b tone n) = Inr j"
  shows "\<exists>data. judgment_of_data (int_str env) data = Inr j"
  using assms unfolding get_judgment_llm_def by (auto simp add: and_then_Inr_iff)

lemma get_judgment_llm_count: "snd (get_judgment_llm env story_a story_b tone n) = Suc n"
  by (simp add: get_judgment_llm_def)

lemma get_judgment_eq:
  "get_judgment env story_a story_b tone n =
     ((case fst (get_judgment_llm env story_a story_b tone n) of
         Inl e \<Rightarrow>
           if is_exception e
           then and_then (print_out env (Suc n) [failed_label, repr_exc env e]) (\<lambda>u.
                get_judgment_mock story_a story_b tone)
           else Inl e
       | Inr j \<Rightarrow> Inr j),
      Suc n)"
  by (simp add: get_judgment_def get_judgment_llm_def split: sum.splits)

lemma get_judgment_sum:
  assumes "fst (get_judgment env story_a story_b tone n) = Inr j"
  shows "a_responsibility j + b_responsibility j = 100"
proof (cases "fst (get_judgment_llm env story_a story_b tone n)")
  case (Inl e)
  with assms have "get_judgment_mock story_a story_b tone = Inr j"
    by (auto simp add: get_judgment_eq and_then_Inr_iff split: if_splits)
  moreover obtain j' where "get_judgment_mock story_a story_b tone = Inr j'"
    and "b_responsibility j' = 100 - a_responsibility j'"
    using get_judgment_mock_total by blast
  ultimately show ?thesis by simp
next
  case (Inr j')
  with assms have "j' = j" by (simp add: get_judgment_eq)
  with Inr obtain data where "judgment_of_data (int_str env) data = Inr j"
    using get_judgment_llm_Inr by blast
  then show ?thesis by (rule judgment_of_data_sum)
qed


lemma mock_empty:
  "get_judgment_mock [] [] tone =
     Inr \<lparr>neutral_summary = mock_neutral_summary,
          a_responsibility = 0,
          b_responsibility = 100,
          advice_a = mock_advice_a,
          advice_b = mock_advice_b,
          apology_template = mock_apology_template,
          safety_flag = False,
          safety_message = []\<rparr>"
  using get_judgment_mock_Inr [of "[]" "[]" 0 tone] round_percent_0 by simp


lemma failing_env_llm:
  "fst (get_judgment_llm failing_env story_a story_b tone n) = Inl APIError"
  by (simp add: get_judgment_llm_def failing_env_def and_then_def)

section \<open>The parsed response\<close>

subsection \<open>Fields of a parsed response\<close>

lemma int_field_get:
  assumes "int_field d k = Some a"
  shows "py_int istr (case map_of d k of None \<Rightarrow> JInt 50 | Some v \<Rightarrow> v) = Inr a"
  using assms by (auto simp add: int_field_def split: option.splits json.splits)

lemma text_field_get:
  assumes "text_field d k = Some s"
  shows "strip_of (case map_of d k of None \<Rightarrow> JStr [] | Some v \<Rightarrow> v) = Inr (py_strip s)"
  using assms by (auto simp add: text_field_def split: option.splits json.splits)

lemma strip_of_Inr:
  assumes "strip_of (case map_of d k of None \<Rightarrow> JStr [] | Some v \<Rightarrow> v) = Inr t"
  shows "\<exists>s. text_field d k = Some s \<and> t = py_strip s"
  using assms by (auto simp add: text_field_def split: option.splits json.splits)

lemma py_strip_Nil: "py_strip [] = []"
  by (simp add: py_strip_def)

lemma text_field_None:
  assumes "map_of d k = None"
  shows "text_field d k = Some []"
  using assms by (simp add: text_field_def)

lemma trimmed_py_strip: "trimmed (py_strip s)"
proof (cases "py_strip s = []")
  case True
  then show ?thesis by (simp add: trimmed_def)
next
  case False
  define u where "u = dropWhile isspace s"
  define w where "w = dropWhile isspace (rev u)"
  have ps: "py_strip s = rev w" by (simp add: py_strip_def u_def w_def)
  have w: "w \<noteq> []" using False ps by simp
  then have hw: "\<not> isspace (hd w)" unfolding w_def by (rule hd_dropWhile)
  have l: "last (py_strip s) = hd w" using w by (simp add: ps last_rev)
  obtain v where v: "rev u = v @ w" unfolding w_def
    by (metis takeWhile_dropWhile_id)
  then have u: "u = rev w @ rev v" by (metis rev_append rev_rev_ident)
  have "u \<noteq> []" using u w by simp
  then have "\<not> isspace (hd u)" unfolding u_def by (rule hd_dropWhile)
  moreover have "hd u = hd (rev w)" using u w by simp
  ultimately have "\<not> isspace (hd (py_strip s))" by (simp add: ps)
  then show ?thesis using hw l by (simp add: trimmed_def)
qed

lemma py_strip_decomp:
  "\<exists>l r. s = l @ py_strip s @ r \<and> list_all isspace l \<and> list_all isspace r"
proof -
  define u where "u = dropWhile isspace s"
  define w where "w = dropWhile isspace (rev u)"
  have ps: "py_strip s = rev w" by (simp add: py_strip_def u_def w_def)
  have s: "s = takeWhile isspace s @ u" by (simp add: u_def)
  have "rev u = takeWhile isspace (rev u) @ w" by (simp add: w_def)
  then have "u = rev w @ rev (takeWhile isspace (rev u))"
    by (metis rev_append rev_rev_ident)
  then have "s = takeWhile isspace s @ py_strip s @ rev (takeWhile isspace (rev u))"
    using s ps by simp
  moreover have "list_all isspace (takeWhile isspace s)"
    by (simp add: list_all_iff) (meson set_takeWhileD)
  moreover have "list_all isspace (rev (takeWhile isspace (rev u)))"
    by (simp add: list_all_iff) (meson set_takeWhileD)
  ultimately show ?thesis by blast
qed

lemma normalize_shares_spec:
  "normalize_shares a b =
     and_then (round_percent a (spec_total a b)) (\<lambda>a'. Inr (a', 100 - a'))"
  by (simp add: normalize_shares_def or_int_def spec_total_def Let_def)

lemma judgment_of_data_dict:
  assumes "int_field d (str_of ''a_responsibility'') = Some a"
    and "int_field d (str_of ''b_responsibility'') = Some b"
  shows "judgment_of_data istr (JDict d) = Inr j \<longleftrightarrow>
     (\<exists>s1 s2 s3 s4 s6.
        normalize_shares a b = Inr (a_responsibility j, b_responsibility j) \<and>
        text_field d (str_of ''neutral_summary'') = Some s1 \<and>
        text_field d (str_of ''advice_a'') = Some s2 \<and>
        text_field d (str_of ''advice_b'') = Some s3 \<and>
        text_field d (str_of ''apology_template'') = Some s4 \<and>
        text_field d (str_of ''safety_message'') = Some s6 \<and>
        j = \<lparr>neutral_summary = py_strip s1,
             a_responsibility = a_responsibility j,
             b_responsibility = b_responsibility j,
             advice_a = py_strip s2,
             advice_b = py_strip s3,
             apology_template = py_strip s4,
             safety_flag = py_bool (case map_of d (str_of ''safety_flag'') of
                                      None \<Rightarrow> JBool False | Some v \<Rightarrow> v),
             safety_message = py_strip s6\<rparr>)"
  (is "?L \<longleftrightarrow> ?R")
proof
  assume ?L
  then obtain a' b' s1 s2 s3 s4 s6 where
    n: "normalize_shares a b = Inr (a', b')"
    and t1: "strip_of (case map_of d (str_of ''neutral_summary'') of None \<Rightarrow> JStr [] | Some v \<Rightarrow> v) = Inr s1"
    and t2: "strip_of (case map_of d (str_of ''advice_a'') of None \<Rightarrow> JStr [] | Some v \<Rightarrow> v) = Inr s2"
    and t3: "strip_of (case map_of d (str_of ''advice_b'') of None \<Rightarrow> JStr [] | Some v \<Rightarrow> v) = Inr s3"
    and t4: "strip_of (case map_of d (str_of ''apology_template'') of None \<Rightarrow> JStr [] | Some v \<Rightarrow> v) = Inr s4"
    and t6: "strip_of (case map_of d (str_of ''safety_message'') of None \<Rightarrow> JStr [] | Some v \<Rightarrow> v) = Inr s6"
    and j: "j = \<lparr>neutral_summary = s1, a_responsibility = a', b_responsibility = b',
             advice_a = s2, advice_b = s3, apology_template = s4,
             safety_flag = py_bool (case map_of d (str_of ''safety_flag'') of
                                      None \<Rightarrow> JBool False | Some v \<Rightarrow> v),
             safety_message = s6\<rparr>"
    unfolding judgment_of_data_Inr_iff
    using int_field_get [OF assms(1), of istr] int_field_get [OF assms(2), of istr]
    by auto
  from strip_of_Inr [OF t1] strip_of_Inr [OF t2] strip_of_Inr [OF t3] strip_of_Inr [OF t4]
    strip_of_Inr [OF t6] n j
  show ?R by auto
next
  assume ?R
  then obtain s1 s2 s3 s4 s6 where
    n: "normalize_shares a b = Inr (a_responsibility j, b_responsibility j)"
    and t1: "text_field d (str_of ''neutral_summary'') = Some s1"
    and t2: "text_field d (str_of ''advice_a'') = Some s2"
    and t3: "text_field d (str_of ''advice_b'') = Some s3"
    and t4: "text_field d (str_of ''apology_template'') = Some s4"
    and t6: "text_field d (str_of ''safety_message'') = Some s6"
    and j: "j = \<lparr>neutral_summary = py_strip s1,
             a_responsibility = a_responsibility j,
             b_responsibility = b_responsibility j,
             advice_a = py_strip s2,
             advice_b = py_strip s3,
             apology_template = py_strip s4,
             safety_flag = py_bool (case map_of d (str_of ''safety_flag'') of
                                      None \<Rightarrow> JBool False | Some v \<Rightarrow> v),
             safety_message = py_strip s6\<rparr>"
    by blast
  show ?L
    unfolding judgment_of_data_Inr_iff
    using int_field_get [OF assms(1), of istr] int_field_get [OF assms(2), of istr]
      text_field_get [OF t1] text_field_get [OF t2] text_field_get [OF t3]
      text_field_get [OF t4] text_field_get [OF t6] n j
    by simp
qed

lemma normalize_shares_range:
  assumes "0 \<le> a" and "0 \<le> b"
  shows "\<exists>a'. normalize_shares a b = Inr (a', 100 - a') \<and> 0 \<le> a' \<and> a' \<le> 100"
proof -
  have "a \<le> spec_total a b" and "1 \<le> spec_total a b"
    using assms by (auto simp add: spec_total_def)
  from round_percent_range [OF assms(1) this]
  obtain r where "round_percent a (spec_total a b) = Inr r" "0 \<le> r" "r \<le> 100" by blast
  then show ?thesis by (simp add: normalize_shares_spec and_then_def)
qed

lemma normalize_shares_identity:
  assumes "a + b = 100" and "\<bar>a\<bar> \<le> 2 ^ 50"
  shows "normalize_shares a b = Inr (a, b)"
proof -
  have t: "spec_total a b = 100" using assms(1) by (simp add: spec_total_def)
  have b: "100 - a = b" using assms(1) by simp
  show ?thesis
    by (simp add: normalize_shares_spec t and_then_def round_percent_identity [OF assms(2)] b)
qed

lemma normalize_shares_half:
  assumes "a \<noteq> 0"
  shows "normalize_shares a a = Inr (50, 50)"
proof -
  have t: "spec_total a a = a + a" using assms by (simp add: spec_total_def)
  show ?thesis
    using round_percent_half [OF assms]
    by (simp only: normalize_shares_spec t) (simp add: and_then_def)
qed

lemma normalize_shares_negative: "normalize_shares (- 50) 100 = Inr (- 100, 200)"
  by code_simp

lemma normalize_shares_huge:
  "normalize_shares 9007199254740993 (- 9007199254740893) =
     Inr (9007199254740994, - 9007199254740894)"
  by code_simp

lemma int_field_response_40_40:
  "int_field response_40_40 (str_of ''a_responsibility'') = Some 40"
  "int_field response_40_40 (str_of ''b_responsibility'') = Some 40"
  by (simp_all add: int_field_def response_40_40_def str_of_def)

lemma int_field_response_negative:
  "int_field response_negative (str_of ''a_responsibility'') = Some (- 50)"
  "int_field response_negative (str_of ''b_responsibility'') = Some 100"
  by (simp_all add: int_field_def response_negative_def str_of_def)

lemma int_field_response_huge:
  "int_field response_huge (str_of ''a_responsibility'') = Some 9007199254740993"
  "int_field response_huge (str_of ''b_responsibility'') = Some (- 9007199254740893)"
  by (simp_all add: int_field_def response_huge_def str_of_def)

lemma judgment_of_response_negative:
  "judgment_of_data istr (JDict response_negative) =
     Inr \<lparr>neutral_summary = [], a_responsibility = - 100, b_responsibility = 200,
          advice_a = [], advice_b = [], apology_template = [],
          safety_flag = False, safety_message = []\<rparr>"
  unfolding judgment_of_data_dict [OF int_field_response_negative]
  by (simp add: normalize_shares_negative response_negative_def text_field_def str_of_def
      py_strip_Nil)

lemma judgment_of_response_huge:
  "judgment_of_data istr (JDict response_huge) =
     Inr \<lparr>neutral_summary = [], a_responsibility = 9007199254740994,
          b_responsibility = - 9007199254740894,
          advice_a = [], advice_b = [], apology_template = [],
          safety_flag = False, safety_message = []\<rparr>"
  unfolding judgment_of_data_dict [OF int_field_response_huge]
  by (simp add: normalize_shares_huge response_huge_def text_field_def str_of_def
      py_strip_Nil)

lemma text_fields_okD:
  assumes "text_fields_ok d"
  shows "\<exists>s1 s2 s3 s4 s6.
        text_field d (str_of ''neutral_summary'') = Some s1 \<and>
        text_field d (str_of ''advice_a'') = Some s2 \<and>
        text_field d (str_of ''advice_b'') = Some s3 \<and>
        text_field d (str_of ''apology_template'') = Some s4 \<and>
        text_field d (str_of ''safety_message'') = Some s6"
  using assms unfolding text_fields_ok_def by auto

lemma judgment_of_data_built:
  assumes "int_field d (str_of ''a_responsibility'') = Some a"
    and "int_field d (str_of ''b_responsibility'') = Some b"
    and "text_fields_ok d"
    and "normalize_shares a b = Inr (a', b')"
  shows "\<exists>j. judgment_of_data istr (JDict d) = Inr j \<and>
           a_responsibility j = a' \<and> b_responsibility j = b' \<and>
           (map_of d (str_of ''advice_a'') = None \<longrightarrow> advice_a j = [])"
proof -
  obtain s1 s2 s3 s4 s6 where t:
    "text_field d (str_of ''neutral_summary'') = Some s1"
    "text_field d (str_of ''advice_a'') = Some s2"
    "text_field d (str_of ''advice_b'') = Some s3"
    "text_field d (str_of ''apology_template'') = Some s4"
    "text_field d (str_of ''safety_message'') = Some s6"
    using text_fields_okD [OF assms(3)] by blast
  define j where "j = \<lparr>neutral_summary = py_strip s1,
             a_responsibility = a',
             b_responsibility = b',
             advice_a = py_strip s2,
             advice_b = py_strip s3,
             apology_template = py_strip s4,
             safety_flag = py_bool (case map_of d (str_of ''safety_flag'') of
                                      None \<Rightarrow> JBool False | Some v \<Rightarrow> v),
             safety_message = py_strip s6\<rparr>"
  have "judgment_of_data istr (JDict d) = Inr j"
    unfolding judgment_of_data_dict [OF assms(1,2)]
    using t assms(4) by (simp add: j_def)
  moreover have "advice_a j = []" if "map_of d (str_of ''advice_a'') = None"
    using t(2) text_field_None [OF that] by (simp add: j_def py_strip_Nil)
  ultimately show ?thesis by (auto simp add: j_def)
qed

lemma judgment_of_data_texts:
  assumes "judgment_of_data istr (JDict d) = Inr j"
  shows "\<exists>s1 s2 s3 s4 s6.
        text_field d (str_of ''neutral_summary'') = Some s1 \<and> neutral_summary j = py_strip s1 \<and>
        text_field d (str_of ''advice_a'') = Some s2 \<and> advice_a j = py_strip s2 \<and>
        text_field d (str_of ''advice_b'') = Some s3 \<and> advice_b j = py_strip s3 \<and>
        text_field d (str_of ''apology_template'') = Some s4 \<and> apology_template j = py_strip s4 \<and>
        text_field d (str_of ''safety_message'') = Some s6 \<and> safety_message j = py_strip s6 \<and>
        safety_flag j = py_bool (case map_of d (str_of ''safety_flag'') of
                                   None \<Rightarrow> JBool False | Some v \<Rightarrow> v)"
proof -
  from assms obtain t1 t2 t3 t4 t6 a' b' where
    t1: "strip_of (case map_of d (str_of ''neutral_summary'') of None \<Rightarrow> JStr [] | Some v \<Rightarrow> v) = Inr t1"
    and t2: "strip_of (case map_of d (str_of ''advice_a'') of None \<Rightarrow> JStr [] | Some v \<Rightarrow> v) = Inr t2"
    and t3: "strip_of (case map_of d (str_of ''advice_b'') of None \<Rightarrow> JStr [] | Some v \<Rightarrow> v) = Inr t3"
    and t4: "strip_of (case map_of d (str_of ''apology_template'') of None \<Rightarrow> JStr [] | Some v \<Rightarrow> v) = Inr t4"
    and t6: "strip_of (case map_of d (str_of ''safety_message'') of None \<Rightarrow> JStr [] | Some v \<Rightarrow> v) = Inr t6"
    and j: "j = \<lparr>neutral_summary = t1, a_responsibility = a', b_responsibility = b',
             advice_a = t2, advice_b = t3, apology_template = t4,
             safety_flag = py_bool (case map_of d (str_of ''safety_flag'') of
                                      None \<Rightarrow> JBool False | Some v \<Rightarrow> v),
             safety_message = t6\<rparr>"
    unfolding judgment_of_data_Inr_iff by auto
  from strip_of_Inr [OF t1] strip_of_Inr [OF t2] strip_of_Inr [OF t3] strip_of_Inr [OF t4]
    strip_of_Inr [OF t6] j
  show ?thesis by auto
qed

lemma judgment_of_data_normalized:
  assumes "int_field d (str_of ''a_responsibility'') = Some a"
    and "int_field d (str_of ''b_responsibility'') = Some b"
    and "judgment_of_data istr (JDict d) = Inr j"
  shows "normalize_shares a b = Inr (a_responsibility j, b_responsibility j)"
  using assms(3) unfolding judgment_of_data_dict [OF assms(1,2)] by blast

lemma spec_field_default_keys:
  "spec_field_default (str_of ''a_responsibility'') = JInt 50"
  "spec_field_default (str_of ''b_responsibility'') = JInt 50"
  "spec_field_default (str_of ''neutral_summary'') = JStr []"
  "spec_field_default (str_of ''advice_a'') = JStr []"
  "spec_field_default (str_of ''advice_b'') = JStr []"
  "spec_field_default (str_of ''apology_template'') = JStr []"
  "spec_field_default (str_of ''safety_flag'') = JBool False"
  "spec_field_default (str_of ''safety_message'') = JStr []"
  by (simp_all add: spec_field_default_def str_of_def)

lemma dict_get_default:
  assumes "map_of d k = None" and "spec_field_default key = dflt"
  shows "dict_get (JDict ((k, spec_field_default k) # d)) key dflt = dict_get (JDict d) key dflt"
  using assms by auto

lemma missing_field_default:
  assumes "map_of d k = None"
  shows "judgment_of_data istr (JDict ((k, spec_field_default k) # d)) =
           judgment_of_data istr (JDict d)"
  unfolding judgment_of_data_def
  by (simp only: dict_get_default [OF assms spec_field_default_keys(1)]
      dict_get_default [OF assms spec_field_default_keys(2)]
      dict_get_default [OF assms spec_field_default_keys(3)]
      dict_get_default [OF assms spec_field_default_keys(4)]
      dict_get_default [OF assms spec_field_default_keys(5)]
      dict_get_default [OF assms spec_field_default_keys(6)]
      dict_get_default [OF assms spec_field_default_keys(7)]
      dict_get_default [OF assms spec_field_default_keys(8)])

lemma int_field_response_70_30:
  "int_field response_70_30 (str_of ''a_responsibility'') = Some 70"
  "int_field response_70_30 (str_of ''b_responsibility'') = Some 30"
  by (simp_all add: int_field_def response_70_30_def str_of_def)

lemma text_fields_ok_response_70_30: "text_fields_ok response_70_30"
  by (simp add: text_fields_ok_def text_field_def response_70_30_def str_of_def)

lemma text_fields_ok_response_40_40: "text_fields_ok response_40_40"
  by (simp add: text_fields_ok_def text_field_def response_40_40_def str_of_def)

lemma advice_a_response_40_40: "map_of response_40_40 (str_of ''advice_a'') = None"
  by (simp add: response_40_40_def str_of_def)

lemma judgment_of_response_40_40:
  "judgment_of_data istr (JDict response_40_40) = Inr judgment_40_40"
  unfolding judgment_of_data_dict [OF int_field_response_40_40]
  by (simp add: normalize_shares_half response_40_40_def text_field_def str_of_def
      py_strip_def isspace_def judgment_40_40_def)

lemma get_judgment_llm_parsed:
  assumes "create env n (user_prompt story_a story_b tone) = Inr (Some c)"
    and "print_out env (Suc n) [raw_label, py_strip c] = Inr ()"
    and "loads env (py_strip c) = Inr data"
  shows "get_judgment_llm env story_a story_b tone n =
           (judgment_of_data (int_str env) data, Suc n)"
  using assms by (simp add: get_judgment_llm_def and_then_def)

lemma answering_env_llm:
  "get_judgment_llm (answering_env data) story_a story_b tone n =
     (judgment_of_data no_int_str data, Suc n)"
  by (simp add: get_judgment_llm_def answering_env_def and_then_def)

lemma round_percent_40_80: "round_percent 40 (spec_total 40 40) = Inr 50"
  using round_percent_half [of 40] by (simp add: spec_total_def)

lemma failing_env_print:
  "print_out failing_env n args = Inr ()"
  by (simp add: failing_env_def)

lemma answering_env_get_judgment:
  "fst (get_judgment (answering_env data) story_a story_b tone n) =
     (case judgment_of_data no_int_str data of
        Inl e \<Rightarrow> if is_exception e then get_judgment_mock story_a story_b tone else Inl e
      | Inr j \<Rightarrow> Inr j)"
proof -
  have p: "print_out (answering_env data) k args = Inr ()" for k args
    by (simp add: answering_env_def)
  show ?thesis
    by (simp add: get_judgment_eq answering_env_llm p and_then_def split: sum.splits)
qed

lemma interrupted_env_llm:
  "fst (get_judgment_llm interrupted_env story_a story_b tone n) = Inl KeyboardInterrupt"
  by (simp add: get_judgment_llm_def interrupted_env_def and_then_def)

lemma ascii_print_owl:
  "ascii_print [raw_label, owl_reply] = Inl UnicodeEncodeError"
  "ascii_print [failed_label, str_of ''UnicodeEncodeError('' @ owl_reply @ str_of '')''] =
     Inl UnicodeEncodeError"
  by (simp_all add: ascii_print_def owl_reply_def)

lemma py_strip_owl: "py_strip owl_reply = owl_reply"
  by (simp add: py_strip_def owl_reply_def isspace_def)

lemma ascii_stdout_env_llm:
  "fst (get_judgment_llm ascii_stdout_env story_a story_b tone n) = Inl UnicodeEncodeError"
  by (simp add: get_judgment_llm_def ascii_stdout_env_def and_then_def py_strip_owl
      ascii_print_owl)

section \<open>The claims\<close>

text \<open>
  C1. Sum invariant: the fallback always returns a judgment whose two shares add to 100;
  every judgment built from a parsed response, and so every judgment the LLM strategy
  returns, has shares adding to 100; and every judgment the oracle returns has shares
  adding to 100.
\<close>

theorem sum_invariant:
  "(\<exists>j. get_judgment_mock story_a story_b tone = Inr j \<and>
        a_responsibility j + b_responsibility j = 100) \<and>
   (\<forall>j. judgment_of_data istr data = Inr j \<longrightarrow>
        a_responsibility j + b_responsibility j = 100) \<and>
   (\<forall>j. fst (get_judgment_llm env story_a story_b tone n) = Inr j \<longrightarrow>
        a_responsibility j + b_responsibility j = 100) \<and>
   (\<forall>j. fst (get_judgment env story_a story_b tone n) = Inr j \<longrightarrow>
        a_responsibility j + b_responsibility j = 100)"
proof (intro conjI allI impI)
  obtain j where "get_judgment_mock story_a story_b tone = Inr j"
    and "b_responsibility j = 100 - a_responsibility j"
    using get_judgment_mock_total by blast
  then show "\<exists>j. get_judgment_mock story_a story_b tone = Inr j \<and>
        a_responsibility j + b_responsibility j = 100" by auto
next
  fix j assume "judgment_of_data istr data = Inr j"
  then show "a_responsibility j + b_responsibility j = 100" by (rule judgment_of_data_sum)
next
  fix j assume "fst (get_judgment_llm env story_a story_b tone n) = Inr j"
  then obtain d where "judgment_of_data (int_str env) d = Inr j"
    using get_judgment_llm_Inr by blast
  then show "a_responsibility j + b_responsibility j = 100" by (rule judgment_of_data_sum)
next
  fix j assume "fst (get_judgment env story_a story_b tone n) = Inr j"
  then show "a_responsibility j + b_responsibility j = 100" by (rule get_judgment_sum)
qed

theorem sum_invariant_witness:
  "judgment_of_data no_int_str (JDict response_40_40) = Inr judgment_40_40 \<and>
   fst (get_judgment_llm (answering_env (JDict response_40_40)) scenario_a scenario_b
          (str_of ''Gentle'') 0) = Inr judgment_40_40 \<and>
   fst (get_judgment (answering_env (JDict response_40_40)) scenario_a scenario_b
          (str_of ''Gentle'') 0) = Inr judgment_40_40 \<and>
   a_responsibility judgment_40_40 + b_responsibility judgment_40_40 = 100"
proof -
  have h: "judgment_of_data no_int_str (JDict response_40_40) = Inr judgment_40_40"
    by (rule judgment_of_response_40_40)
  have g: "fst (get_judgment_llm (answering_env (JDict response_40_40)) scenario_a scenario_b
          (str_of ''Gentle'') 0) = Inr judgment_40_40"
    by (simp add: answering_env_llm h)
  have k: "fst (get_judgment (answering_env (JDict response_40_40)) scenario_a scenario_b
          (str_of ''Gentle'') 0) = Inr judgment_40_40"
    by (simp add: answering_env_get_judgment h)
  from sum_invariant [where env = "answering_env (JDict response_40_40)"
      and story_a = scenario_a and story_b = scenario_b and tone = "str_of ''Gentle''" and n = 0]
  have "\<forall>j. fst (get_judgment (answering_env (JDict response_40_40)) scenario_a scenario_b
          (str_of ''Gentle'') 0) = Inr j \<longrightarrow>
          a_responsibility j + b_responsibility j = 100" by blast
  with k have "a_responsibility judgment_40_40 + b_responsibility judgment_40_40 = 100"
    by blast
  with h g k show ?thesis by blast
qed

text \<open>
  C2, as amended. The oracle makes a single attempt: \<open>get_judgment\<close> makes exactly one call
  of the service; when the LLM strategy returns a judgment it is returned unchanged; when
  the strategy raises an \<open>Exception\<close> and the handler's line is printed, the result is exactly
  the fallback's, which is always a judgment; an exception of the strategy that is not an
  \<open>Exception\<close> leaves \<open>get_judgment\<close>.
\<close>

theorem oracle_single_attempt:
  "snd (get_judgment env story_a story_b tone n) = Suc n \<and>
   snd (get_judgment_llm env story_a story_b tone n) = Suc n \<and>
   (\<forall>j. fst (get_judgment_llm env story_a story_b tone n) = Inr j \<longrightarrow>
        fst (get_judgment env story_a story_b tone n) = Inr j) \<and>
   (\<forall>e. fst (get_judgment_llm env story_a story_b tone n) = Inl e \<and> is_exception e \<and>
        print_out env (Suc n) [failed_label, repr_exc env e] = Inr () \<longrightarrow>
        fst (get_judgment env story_a story_b tone n) = get_judgment_mock story_a story_b tone) \<and>
   (\<forall>e. fst (get_judgment_llm env story_a story_b tone n) = Inl e \<and> \<not> is_exception e \<longrightarrow>
        fst (get_judgment env story_a story_b tone n) = Inl e) \<and>
   (\<exists>j. get_judgment_mock story_a story_b tone = Inr j)"
proof (intro conjI allI impI)
  show "snd (get_judgment env story_a story_b tone n) = Suc n"
    by (simp add: get_judgment_eq)
  show "snd (get_judgment_llm env story_a story_b tone n) = Suc n"
    by (rule get_judgment_llm_count)
  show "\<exists>j. get_judgment_mock story_a story_b tone = Inr j"
    using get_judgment_mock_total by blast
next
  fix j assume "fst (get_judgment_llm env story_a story_b tone n) = Inr j"
  then show "fst (get_judgment env story_a story_b tone n) = Inr j"
    by (simp add: get_judgment_eq)
next
  fix e
  assume "fst (get_judgment_llm env story_a story_b tone n) = Inl e \<and> is_exception e \<and>
        print_out env (Suc n) [failed_label, repr_exc env e] = Inr ()"
  then show "fst (get_judgment env story_a story_b tone n) =
      get_judgment_mock story_a story_b tone"
    by (simp add: get_judgment_eq and_then_def)
next
  fix e
  assume "fst (get_judgment_llm env story_a story_b tone n) = Inl e \<and> \<not> is_exception e"
  then show "fst (get_judgment env story_a story_b tone n) = Inl e"
    by (simp add: get_judgment_eq)
qed

theorem oracle_single_attempt_witness:
  "fst (get_judgment_llm failing_env scenario_a scenario_b (str_of ''Gentle'') 0) =
     Inl APIError \<and>
   is_exception APIError \<and>
   print_out failing_env (Suc 0) [failed_label, repr_exc failing_env APIError] = Inr () \<and>
   fst (get_judgment failing_env scenario_a scenario_b (str_of ''Gentle'') 0) =
     get_judgment_mock scenario_a scenario_b (str_of ''Gentle'') \<and>
   snd (get_judgment failing_env scenario_a scenario_b (str_of ''Gentle'') 0) = Suc 0 \<and>
   fst (get_judgment_llm (answering_env (JDict response_40_40)) scenario_a scenario_b
          (str_of ''Gentle'') 0) = Inr judgment_40_40 \<and>
   fst (get_judgment (answering_env (JDict response_40_40)) scenario_a scenario_b
          (str_of ''Gentle'') 0) = Inr judgment_40_40 \<and>
   fst (get_judgment_llm interrupted_env scenario_a scenario_b (str_of ''Gentle'') 0) =
     Inl KeyboardInterrupt \<and>
   \<not> is_exception KeyboardInterrupt \<and>
   fst (get_judgment interrupted_env scenario_a scenario_b (str_of ''Gentle'') 0) =
     Inl KeyboardInterrupt"
proof -
  have f: "fst (get_judgment_llm failing_env scenario_a scenario_b (str_of ''Gentle'') 0) =
     Inl APIError \<and> is_exception APIError \<and>
     print_out failing_env (Suc 0) [failed_label, repr_exc failing_env APIError] = Inr ()"
    by (simp add: failing_env_llm failing_env_print)
  have a: "fst (get_judgment_llm (answering_env (JDict response_40_40)) scenario_a scenario_b
          (str_of ''Gentle'') 0) = Inr judgment_40_40"
    by (simp add: answering_env_llm judgment_of_response_40_40)
  have i: "fst (get_judgment_llm interrupted_env scenario_a scenario_b (str_of ''Gentle'') 0) =
     Inl KeyboardInterrupt \<and> \<not> is_exception KeyboardInterrupt"
    by (simp add: interrupted_env_llm)
  from oracle_single_attempt [of failing_env scenario_a scenario_b "str_of ''Gentle''" 0] f
  have 1: "fst (get_judgment failing_env scenario_a scenario_b (str_of ''Gentle'') 0) =
     get_judgment_mock scenario_a scenario_b (str_of ''Gentle'')"
    and 2: "snd (get_judgment failing_env scenario_a scenario_b (str_of ''Gentle'') 0) = Suc 0"
    by blast+
  from oracle_single_attempt [of "answering_env (JDict response_40_40)" scenario_a scenario_b
      "str_of ''Gentle''" 0] a
  have 3: "fst (get_judgment (answering_env (JDict response_40_40)) scenario_a scenario_b
          (str_of ''Gentle'') 0) = Inr judgment_40_40" by blast
  from oracle_single_attempt [of interrupted_env scenario_a scenario_b "str_of ''Gentle''" 0] i
  have 4: "fst (get_judgment interrupted_env scenario_a scenario_b (str_of ''Gentle'') 0) =
     Inl KeyboardInterrupt" by blast
  from f a i 1 2 3 4 show ?thesis by blast
qed

text \<open>The claim C2 as stated fails: an interrupt from the keyboard during the request is not
  an \<open>Exception\<close> and leaves \<open>get_judgment\<close>; and where standard output encodes ASCII
  only and the reply holds an owl, the attempt's \<open>print\<close> raises, the handler's \<open>print\<close> of the
  \<open>repr\<close> raises again, and that exception leaves \<open>get_judgment\<close>.\<close>

theorem oracle_raises_outward:
  "get_judgment interrupted_env scenario_a scenario_b (str_of ''Gentle'') 0 =
     (Inl KeyboardInterrupt, Suc 0) \<and>
   get_judgment ascii_stdout_env scenario_a scenario_b (str_of ''Gentle'') 0 =
     (Inl UnicodeEncodeError, Suc 0)"
  by (simp add: get_judgment_eq interrupted_env_llm ascii_stdout_env_llm and_then_def)
     (simp add: ascii_stdout_env_def ascii_print_owl)

text \<open>
  C3. Heuristic split: for all stories and every tone the fallback returns a judgment
  whose \<open>a_responsibility\<close> is \<open>round(len(story_a) / max(len(story_a) + len(story_b), 1) * 100)\<close>
  (Python's float arithmetic and rounding) and whose \<open>b_responsibility\<close> is 100 minus
  it; the result is the same for every tone; lengths 30 and 70 give 30 and 70; and as long
  as the two lengths add to at most \<open>2 ^ 43\<close> the share is an integer nearest to the exact
  percentage.
\<close>

theorem mock_split_formula:
  "\<exists>j. get_judgment_mock story_a story_b tone = Inr j \<and>
       round_percent (int (length story_a))
         (max (int (length story_a) + int (length story_b)) 1) = Inr (a_responsibility j) \<and>
       b_responsibility j = 100 - a_responsibility j \<and>
       get_judgment_mock story_a story_b tone' = Inr j \<and>
       (length story_a = 30 \<and> length story_b = 70 \<longrightarrow>
          a_responsibility j = 30 \<and> b_responsibility j = 70) \<and>
       (int (length story_a) + int (length story_b) \<le> 2 ^ 43 \<longrightarrow>
          \<bar>of_int (a_responsibility j) -
            100 * of_int (int (length story_a)) /
              (of_int (max (int (length story_a) + int (length story_b)) 1) :: rat)\<bar> \<le> 1 / 2)"
proof -
  obtain j where j: "get_judgment_mock story_a story_b tone = Inr j"
    and r: "round_percent (int (length story_a))
         (max (int (length story_a) + int (length story_b)) 1) = Inr (a_responsibility j)"
    and b: "b_responsibility j = 100 - a_responsibility j"
    using get_judgment_mock_total by blast
  have t: "get_judgment_mock story_a story_b tone' = Inr j"
    using j by (simp add: get_judgment_mock_def)
  have s: "a_responsibility j = 30 \<and> b_responsibility j = 70"
    if "length story_a = 30 \<and> length story_b = 70"
    using r b that by (simp add: round_percent_30_70)
  have n: "\<bar>of_int (a_responsibility j) -
            100 * of_int (int (length story_a)) /
              (of_int (max (int (length story_a) + int (length story_b)) 1) :: rat)\<bar> \<le> 1 / 2"
    if "int (length story_a) + int (length story_b) \<le> 2 ^ 43"
  proof (rule round_percent_nearest [OF _ _ _ _ r])
    show "0 \<le> int (length story_a)" by simp
    show "int (length story_a) \<le> max (int (length story_a) + int (length story_b)) 1"
      by simp
    show "1 \<le> max (int (length story_a) + int (length story_b)) 1" by simp
    show "max (int (length story_a) + int (length story_b)) 1 \<le> 2 ^ 43"
      using that by simp
  qed
  show ?thesis using j r b t s n by blast
qed

theorem mock_split_formula_witness:
  "length (replicate 30 (97::nat)) = 30 \<and> length (replicate 70 (98::nat)) = 70 \<and>
   int (length (replicate 30 (97::nat))) + int (length (replicate 70 (98::nat))) \<le> 2 ^ 43 \<and>
   a_responsibility
     (projr (get_judgment_mock (replicate 30 97) (replicate 70 98) (str_of ''Direct''))) = 30 \<and>
   b_responsibility
     (projr (get_judgment_mock (replicate 30 97) (replicate 70 98) (str_of ''Direct''))) = 70 \<and>
   \<bar>of_int (a_responsibility
       (projr (get_judgment_mock (replicate 30 97) (replicate 70 98) (str_of ''Direct'')))) -
     100 * of_int (int (length (replicate 30 (97::nat)))) /
       (of_int (max (int (length (replicate 30 (97::nat))) +
                     int (length (replicate 70 (98::nat)))) 1) :: rat)\<bar> \<le> 1 / 2"
proof -
  have l: "length (replicate 30 (97::nat)) = 30 \<and> length (replicate 70 (98::nat)) = 70"
    by simp
  have m: "int (length (replicate 30 (97::nat))) + int (length (replicate 70 (98::nat)))
      \<le> 2 ^ 43" by simp
  obtain j where j: "get_judgment_mock (replicate 30 97) (replicate 70 98) (str_of ''Direct'') = Inr j"
    and s: "length (replicate 30 (97::nat)) = 30 \<and> length (replicate 70 (98::nat)) = 70 \<longrightarrow>
          a_responsibility j = 30 \<and> b_responsibility j = 70"
    and n: "int (length (replicate 30 (97::nat))) + int (length (replicate 70 (98::nat)))
        \<le> 2 ^ 43 \<longrightarrow>
          \<bar>of_int (a_responsibility j) -
            100 * of_int (int (length (replicate 30 (97::nat)))) /
              (of_int (max (int (length (replicate 30 (97::nat))) +
                            int (length (replicate 70 (98::nat)))) 1) :: rat)\<bar> \<le> 1 / 2"
    using mock_split_formula [of "replicate 30 97" "replicate 70 98" "str_of ''Direct''"]
    by blast
  from s l have "a_responsibility j = 30 \<and> b_responsibility j = 70" by blast
  moreover from n m have "\<bar>of_int (a_responsibility j) -
            100 * of_int (int (length (replicate 30 (97::nat)))) /
              (of_int (max (int (length (replicate 30 (97::nat))) +
                            int (length (replicate 70 (98::nat)))) 1) :: rat)\<bar> \<le> 1 / 2"
    by blast
  ultimately show ?thesis using l m by (simp add: j)
qed

text \<open>
  C4. LLM normalization: for a parsed response whose responsibility fields are the
  integers \<open>a\<close> and \<open>b\<close> (50 for a missing one), with \<open>total = a + b\<close> taken as 1 when it
  is 0, the shares of the judgment are \<open>a' = round(a / total * 100)\<close> and \<open>b' = 100 - a'\<close>;
  a judgment is built whenever the text fields are strings and the rounding does not raise;
  equal non-zero shares, such as 40 and 40, become 50 and 50; and for non-negative fields
  adding to at most \<open>2 ^ 43\<close> the share \<open>a'\<close> is an integer nearest to the exact
  percentage.
\<close>

theorem llm_normalization:
  assumes "int_field d (str_of ''a_responsibility'') = Some a"
    and "int_field d (str_of ''b_responsibility'') = Some b"
  shows "normalize_shares a b =
           and_then (round_percent a (spec_total a b)) (\<lambda>a'. Inr (a', 100 - a')) \<and>
         (\<forall>j. judgment_of_data istr (JDict d) = Inr j \<longrightarrow>
            round_percent a (spec_total a b) = Inr (a_responsibility j) \<and>
            b_responsibility j = 100 - a_responsibility j) \<and>
         (\<forall>a'. text_fields_ok d \<and> round_percent a (spec_total a b) = Inr a' \<longrightarrow>
            (\<exists>j. judgment_of_data istr (JDict d) = Inr j \<and>
                 a_responsibility j = a' \<and> b_responsibility j = 100 - a')) \<and>
         (a = b \<and> a \<noteq> 0 \<longrightarrow> normalize_shares a b = Inr (50, 50)) \<and>
         (a = 40 \<and> b = 40 \<longrightarrow>
            (\<forall>j. judgment_of_data istr (JDict d) = Inr j \<longrightarrow>
               a_responsibility j = 50 \<and> b_responsibility j = 50)) \<and>
         (\<forall>a'. 0 \<le> a \<and> 0 \<le> b \<and> a + b \<le> 2 ^ 43 \<and>
               round_percent a (spec_total a b) = Inr a' \<longrightarrow>
            \<bar>of_int a' - 100 * of_int a / (of_int (spec_total a b) :: rat)\<bar> \<le> 1 / 2)"
proof (intro conjI allI impI)
  show "normalize_shares a b =
           and_then (round_percent a (spec_total a b)) (\<lambda>a'. Inr (a', 100 - a'))"
    by (rule normalize_shares_spec)
next
  fix j assume j: "judgment_of_data istr (JDict d) = Inr j"
  have n: "normalize_shares a b = Inr (a_responsibility j, b_responsibility j)"
    using assms j by (rule judgment_of_data_normalized)
  then show "round_percent a (spec_total a b) = Inr (a_responsibility j)"
    and "b_responsibility j = 100 - a_responsibility j"
    by (auto simp add: normalize_shares_spec and_then_Inr_iff)
next
  fix a' assume h: "text_fields_ok d \<and> round_percent a (spec_total a b) = Inr a'"
  then have "normalize_shares a b = Inr (a', 100 - a')"
    by (simp add: normalize_shares_spec and_then_def)
  from judgment_of_data_built [OF assms _ this, of istr] h
  show "\<exists>j. judgment_of_data istr (JDict d) = Inr j \<and>
                 a_responsibility j = a' \<and> b_responsibility j = 100 - a'" by blast
next
  assume "a = b \<and> a \<noteq> 0"
  then show "normalize_shares a b = Inr (50, 50)" using normalize_shares_half by blast
next
  fix j assume ab: "a = 40 \<and> b = 40" and j: "judgment_of_data istr (JDict d) = Inr j"
  have "normalize_shares a b = Inr (a_responsibility j, b_responsibility j)"
    using assms j by (rule judgment_of_data_normalized)
  moreover have "normalize_shares a b = Inr (50, 50)"
    using ab normalize_shares_half [of 40] by simp
  ultimately show "a_responsibility j = 50" and "b_responsibility j = 50" by simp_all
next
  fix a'
  assume h: "0 \<le> a \<and> 0 \<le> b \<and> a + b \<le> 2 ^ 43 \<and>
               round_percent a (spec_total a b) = Inr a'"
  show "\<bar>of_int a' - 100 * of_int a / (of_int (spec_total a b) :: rat)\<bar> \<le> 1 / 2"
  proof (rule round_percent_nearest)
    show "0 \<le> a" using h by simp
    show "a \<le> spec_total a b" using h by (auto simp add: spec_total_def)
    show "1 \<le> spec_total a b" using h by (auto simp add: spec_total_def)
    show "spec_total a b \<le> 2 ^ 43" using h by (auto simp add: spec_total_def)
    show "round_percent a (spec_total a b) = Inr a'" using h by simp
  qed
qed

theorem llm_normalization_witness:
  "int_field response_40_40 (str_of ''a_responsibility'') = Some 40 \<and>
   int_field response_40_40 (str_of ''b_responsibility'') = Some 40 \<and>
   text_fields_ok response_40_40 \<and>
   (40::int) + 40 \<le> 2 ^ 43 \<and>
   round_percent 40 (spec_total 40 40) = Inr 50 \<and>
   normalize_shares 40 40 = Inr (50, 50) \<and>
   judgment_of_data no_int_str (JDict response_40_40) = Inr judgment_40_40 \<and>
   a_responsibility judgment_40_40 = 50 \<and> b_responsibility judgment_40_40 = 50 \<and>
   \<bar>of_int 50 - 100 * of_int 40 / (of_int (spec_total 40 40) :: rat)\<bar> \<le> 1 / 2"
proof -
  have j: "judgment_of_data no_int_str (JDict response_40_40) = Inr judgment_40_40"
    by (rule judgment_of_response_40_40)
  note t = llm_normalization [OF int_field_response_40_40, of no_int_str]
  have e: "(40::int) = 40 \<and> (40::int) \<noteq> 0" and e': "(40::int) = 40 \<and> (40::int) = 40"
    by simp_all
  have p: "0 \<le> (40::int) \<and> 0 \<le> (40::int) \<and> (40::int) + 40 \<le> 2 ^ 43 \<and>
               round_percent 40 (spec_total 40 40) = Inr 50"
    by (simp add: round_percent_40_80)
  from t e' j have s: "a_responsibility judgment_40_40 = 50 \<and> b_responsibility judgment_40_40 = 50"
    by blast
  from t e have n: "normalize_shares 40 40 = Inr (50, 50)" by blast
  from t p have r: "\<bar>of_int 50 - 100 * of_int 40 / (of_int (spec_total 40 40) :: rat)\<bar> \<le> 1 / 2"
    by blast
  have "(40::int) + 40 \<le> 2 ^ 43" by simp
  then show ?thesis
    using j s n r int_field_response_40_40 text_fields_ok_response_40_40 round_percent_40_80
    by blast
qed

text \<open>
  C5, as amended. Range invariant: the fallback's judgment has both shares in [0, 100] for
  all inputs; a judgment built from a response whose responsibility fields are
  non-negative integers (50 for a missing one) has both shares in [0, 100], and such a
  judgment is built whenever the text fields are strings.
\<close>

theorem range_invariant:
  "(\<exists>j. get_judgment_mock story_a story_b tone = Inr j \<and>
        0 \<le> a_responsibility j \<and> a_responsibility j \<le> 100 \<and>
        0 \<le> b_responsibility j \<and> b_responsibility j \<le> 100) \<and>
   (int_field d (str_of ''a_responsibility'') = Some a \<and>
    int_field d (str_of ''b_responsibility'') = Some b \<and> 0 \<le> a \<and> 0 \<le> b \<longrightarrow>
      (\<forall>j. judgment_of_data istr (JDict d) = Inr j \<longrightarrow>
         0 \<le> a_responsibility j \<and> a_responsibility j \<le> 100 \<and>
         0 \<le> b_responsibility j \<and> b_responsibility j \<le> 100) \<and>
      (text_fields_ok d \<longrightarrow> (\<exists>j. judgment_of_data istr (JDict d) = Inr j)))"
proof (intro conjI impI allI)
  obtain j where "get_judgment_mock story_a story_b tone = Inr j"
    and "b_responsibility j = 100 - a_responsibility j"
    and "0 \<le> a_responsibility j" and "a_responsibility j \<le> 100"
    using get_judgment_mock_total by blast
  then show "\<exists>j. get_judgment_mock story_a story_b tone = Inr j \<and>
        0 \<le> a_responsibility j \<and> a_responsibility j \<le> 100 \<and>
        0 \<le> b_responsibility j \<and> b_responsibility j \<le> 100" by auto
next
  fix j
  assume h: "int_field d (str_of ''a_responsibility'') = Some a \<and>
    int_field d (str_of ''b_responsibility'') = Some b \<and> 0 \<le> a \<and> 0 \<le> b"
    and j: "judgment_of_data istr (JDict d) = Inr j"
  have n: "normalize_shares a b = Inr (a_responsibility j, b_responsibility j)"
    using h j judgment_of_data_normalized by blast
  obtain a' where "normalize_shares a b = Inr (a', 100 - a')" "0 \<le> a'" "a' \<le> 100"
    using normalize_shares_range h by blast
  with n show "0 \<le> a_responsibility j" and "a_responsibility j \<le> 100"
    and "0 \<le> b_responsibility j" and "b_responsibility j \<le> 100" by auto
next
  assume h: "int_field d (str_of ''a_responsibility'') = Some a \<and>
    int_field d (str_of ''b_responsibility'') = Some b \<and> 0 \<le> a \<and> 0 \<le> b"
    and t: "text_fields_ok d"
  obtain a' where n: "normalize_shares a b = Inr (a', 100 - a')"
    using normalize_shares_range h by blast
  from h have ia: "int_field d (str_of ''a_responsibility'') = Some a"
    and ib: "int_field d (str_of ''b_responsibility'') = Some b" by simp_all
  from judgment_of_data_built [OF ia ib t n, of istr]
  show "\<exists>j. judgment_of_data istr (JDict d) = Inr j" by blast
qed

theorem range_invariant_witness:
  "int_field response_40_40 (str_of ''a_responsibility'') = Some 40 \<and>
   int_field response_40_40 (str_of ''b_responsibility'') = Some 40 \<and>
   (0::int) \<le> 40 \<and> text_fields_ok response_40_40 \<and>
   judgment_of_data no_int_str (JDict response_40_40) = Inr judgment_40_40 \<and>
   0 \<le> a_responsibility judgment_40_40 \<and> a_responsibility judgment_40_40 \<le> 100 \<and>
   0 \<le> b_responsibility judgment_40_40 \<and> b_responsibility judgment_40_40 \<le> 100"
proof -
  have j: "judgment_of_data no_int_str (JDict response_40_40) = Inr judgment_40_40"
    by (rule judgment_of_response_40_40)
  from range_invariant [where d = response_40_40 and a = 40 and b = 40 and istr = no_int_str]
  have "\<forall>j. judgment_of_data no_int_str (JDict response_40_40) = Inr j \<longrightarrow>
         0 \<le> a_responsibility j \<and> a_responsibility j \<le> 100 \<and>
         0 \<le> b_responsibility j \<and> b_responsibility j \<le> 100"
    using int_field_response_40_40 by simp
  with j have "0 \<le> a_responsibility judgment_40_40 \<and> a_responsibility judgment_40_40 \<le> 100 \<and>
   0 \<le> b_responsibility judgment_40_40 \<and> b_responsibility judgment_40_40 \<le> 100" by blast
  then show ?thesis
    using j int_field_response_40_40 text_fields_ok_response_40_40 by simp
qed

text \<open>The claim C5 as stated fails on the LLM path: integer fields \<open>-50\<close> and \<open>100\<close> give
  the shares \<open>-100\<close> and \<open>200\<close>.\<close>

theorem negative_share_out_of_range:
  "int_field response_negative (str_of ''a_responsibility'') = Some (- 50) \<and>
   int_field response_negative (str_of ''b_responsibility'') = Some 100 \<and>
   judgment_of_data no_int_str (JDict response_negative) =
     Inr \<lparr>neutral_summary = [], a_responsibility = - 100, b_responsibility = 200,
          advice_a = [], advice_b = [], apology_template = [],
          safety_flag = False, safety_message = []\<rparr> \<and>
   a_responsibility (projr (judgment_of_data no_int_str (JDict response_negative))) < 0 \<and>
   100 < b_responsibility (projr (judgment_of_data no_int_str (JDict response_negative)))"
  by (simp add: int_field_response_negative judgment_of_response_negative)

text \<open>
  C6, as amended. When both narratives are empty the fallback returns the split 0/100
  (not 50/50): the guard makes the divisor 1, the quotient is 0, and the sum invariant
  holds.
\<close>

theorem empty_stories_split:
  "\<exists>j. get_judgment_mock [] [] tone = Inr j \<and>
       a_responsibility j = 0 \<and> b_responsibility j = 100 \<and>
       a_responsibility j + b_responsibility j = 100"
  by (simp add: mock_empty)

theorem empty_stories_split_witness:
  "a_responsibility (projr (get_judgment_mock [] [] (str_of ''Gentle''))) = 0 \<and>
   b_responsibility (projr (get_judgment_mock [] [] (str_of ''Gentle''))) = 100"
  using empty_stories_split [of "str_of ''Gentle''"] by auto

text \<open>The claim C6 as stated fails: the split for two empty stories is not 50/50.\<close>

theorem empty_stories_not_even_split:
  "get_judgment_mock [] [] (str_of ''Neutral'') =
     Inr \<lparr>neutral_summary = mock_neutral_summary,
          a_responsibility = 0,
          b_responsibility = 100,
          advice_a = mock_advice_a,
          advice_b = mock_advice_b,
          apology_template = mock_apology_template,
          safety_flag = False,
          safety_message = []\<rparr> \<and>
   a_responsibility (projr (get_judgment_mock [] [] (str_of ''Neutral''))) \<noteq> 50 \<and>
   b_responsibility (projr (get_judgment_mock [] [] (str_of ''Neutral''))) \<noteq> 50"
  by (simp add: mock_empty)

text \<open>
  C7. Zero-length guard: the divisor \<open>max(total, 1)\<close> is never 0, the fallback never
  raises \<open>ZeroDivisionError\<close>, and for two empty stories it returns the judgment with
  \<open>a_responsibility = 0\<close> and \<open>b_responsibility = 100\<close>.
\<close>

theorem zero_length_guard:
  "max (int (length story_a) + int (length story_b)) 1 \<noteq> 0 \<and>
   get_judgment_mock story_a story_b tone \<noteq> Inl ZeroDivisionError \<and>
   get_judgment_mock [] [] tone =
     Inr \<lparr>neutral_summary = mock_neutral_summary,
          a_responsibility = 0,
          b_responsibility = 100,
          advice_a = mock_advice_a,
          advice_b = mock_advice_b,
          apology_template = mock_apology_template,
          safety_flag = False,
          safety_message = []\<rparr>"
proof (intro conjI)
  show "max (int (length story_a) + int (length story_b)) 1 \<noteq> 0" by simp
  obtain j where "get_judgment_mock story_a story_b tone = Inr j"
    using get_judgment_mock_total by blast
  then show "get_judgment_mock story_a story_b tone \<noteq> Inl ZeroDivisionError" by simp
  show "get_judgment_mock [] [] tone =
     Inr \<lparr>neutral_summary = mock_neutral_summary,
          a_responsibility = 0,
          b_responsibility = 100,
          advice_a = mock_advice_a,
          advice_b = mock_advice_b,
          apology_template = mock_apology_template,
          safety_flag = False,
          safety_message = []\<rparr>" by (rule mock_empty)
qed

theorem zero_length_guard_witness:
  "get_judgment_mock [] [] [] \<noteq> Inl ZeroDivisionError \<and>
   a_responsibility (projr (get_judgment_mock [] [] [])) = 0 \<and>
   b_responsibility (projr (get_judgment_mock [] [] [])) = 100"
  using zero_length_guard [of "[]" "[]" "[]"] by simp

text \<open>
  C8. Field defaulting: a missing field behaves exactly as the field with its default
  (50 for each responsibility, false for the safety flag, the empty string for a text
  field); in every judgment built from a parsed object each text field is the stripped
  string of the response (empty for a missing field) and has no leading or trailing
  whitespace, and \<open>safety_flag\<close> is the truth value of the field: false when the field is
  missing or \<open>null\<close>, the boolean itself, and for a number, a string, a list or an object
  whether it is non-zero or non-empty; a response without \<open>advice_a\<close> whose other fields are
  well-formed yields a judgment with \<open>advice_a = ""\<close>.
\<close>

theorem llm_field_defaulting:
  "(map_of d k = None \<longrightarrow>
      judgment_of_data istr (JDict ((k, spec_field_default k) # d)) =
        judgment_of_data istr (JDict d)) \<and>
   spec_field_default (str_of ''a_responsibility'') = JInt 50 \<and>
   spec_field_default (str_of ''b_responsibility'') = JInt 50 \<and>
   spec_field_default (str_of ''safety_flag'') = JBool False \<and>
   spec_field_default (str_of ''neutral_summary'') = JStr [] \<and>
   spec_field_default (str_of ''advice_a'') = JStr [] \<and>
   spec_field_default (str_of ''advice_b'') = JStr [] \<and>
   spec_field_default (str_of ''apology_template'') = JStr [] \<and>
   spec_field_default (str_of ''safety_message'') = JStr [] \<and>
   (judgment_of_data istr (JDict d) = Inr j \<longrightarrow>
      (\<exists>s1 s2 s3 s4 s6.
         text_field d (str_of ''neutral_summary'') = Some s1 \<and> neutral_summary j = py_strip s1 \<and>
         text_field d (str_of ''advice_a'') = Some s2 \<and> advice_a j = py_strip s2 \<and>
         text_field d (str_of ''advice_b'') = Some s3 \<and> advice_b j = py_strip s3 \<and>
         text_field d (str_of ''apology_template'') = Some s4 \<and>
         apology_template j = py_strip s4 \<and>
         text_field d (str_of ''safety_message'') = Some s6 \<and>
         safety_message j = py_strip s6) \<and>
      trimmed (neutral_summary j) \<and> trimmed (advice_a j) \<and> trimmed (advice_b j) \<and>
      trimmed (apology_template j) \<and> trimmed (safety_message j) \<and>
      safety_flag j = py_bool (case map_of d (str_of ''safety_flag'') of
                                 None \<Rightarrow> JBool False | Some v \<Rightarrow> v) \<and>
      (map_of d (str_of ''safety_flag'') = None \<longrightarrow> safety_flag j = False) \<and>
      (map_of d (str_of ''safety_flag'') = Some JNull \<longrightarrow> safety_flag j = False) \<and>
      (\<forall>b. map_of d (str_of ''safety_flag'') = Some (JBool b) \<longrightarrow> safety_flag j = b) \<and>
      (\<forall>i. map_of d (str_of ''safety_flag'') = Some (JInt i) \<longrightarrow>
           safety_flag j = (i \<noteq> 0)) \<and>
      (\<forall>r. map_of d (str_of ''safety_flag'') = Some (JFloat (Fin r)) \<longrightarrow>
           safety_flag j = (r \<noteq> 0)) \<and>
      (\<forall>s. map_of d (str_of ''safety_flag'') = Some (JStr s) \<longrightarrow>
           safety_flag j = (s \<noteq> [])) \<and>
      (\<forall>xs. map_of d (str_of ''safety_flag'') = Some (JList xs) \<longrightarrow>
           safety_flag j = (xs \<noteq> [])) \<and>
      (\<forall>kvs. map_of d (str_of ''safety_flag'') = Some (JDict kvs) \<longrightarrow>
           safety_flag j = (kvs \<noteq> [])) \<and>
      (map_of d (str_of ''neutral_summary'') = None \<longrightarrow> neutral_summary j = []) \<and>
      (map_of d (str_of ''advice_a'') = None \<longrightarrow> advice_a j = []) \<and>
      (map_of d (str_of ''advice_b'') = None \<longrightarrow> advice_b j = []) \<and>
      (map_of d (str_of ''apology_template'') = None \<longrightarrow> apology_template j = []) \<and>
      (map_of d (str_of ''safety_message'') = None \<longrightarrow> safety_message j = [])) \<and>
   (map_of d (str_of ''advice_a'') = None \<and> text_fields_ok d \<and>
    int_field d (str_of ''a_responsibility'') = Some a \<and>
    int_field d (str_of ''b_responsibility'') = Some b \<and> 0 \<le> a \<and> 0 \<le> b \<longrightarrow>
      (\<exists>j. judgment_of_data istr (JDict d) = Inr j \<and> advice_a j = []))"
proof -
  have p1: "map_of d k = None \<longrightarrow>
      judgment_of_data istr (JDict ((k, spec_field_default k) # d)) =
        judgment_of_data istr (JDict d)"
    using missing_field_default by blast
  have p3: "(\<exists>s1 s2 s3 s4 s6.
         text_field d (str_of ''neutral_summary'') = Some s1 \<and> neutral_summary j = py_strip s1 \<and>
         text_field d (str_of ''advice_a'') = Some s2 \<and> advice_a j = py_strip s2 \<and>
         text_field d (str_of ''advice_b'') = Some s3 \<and> advice_b j = py_strip s3 \<and>
         text_field d (str_of ''apology_template'') = Some s4 \<and>
         apology_template j = py_strip s4 \<and>
         text_field d (str_of ''safety_message'') = Some s6 \<and>
         safety_message j = py_strip s6) \<and>
      trimmed (neutral_summary j) \<and> trimmed (advice_a j) \<and> trimmed (advice_b j) \<and>
      trimmed (apology_template j) \<and> trimmed (safety_message j) \<and>
      safety_flag j = py_bool (case map_of d (str_of ''safety_flag'') of
                                 None \<Rightarrow> JBool False | Some v \<Rightarrow> v) \<and>
      (map_of d (str_of ''safety_flag'') = None \<longrightarrow> safety_flag j = False) \<and>
      (map_of d (str_of ''safety_flag'') = Some JNull \<longrightarrow> safety_flag j = False) \<and>
      (\<forall>b. map_of d (str_of ''safety_flag'') = Some (JBool b) \<longrightarrow> safety_flag j = b) \<and>
      (\<forall>i. map_of d (str_of ''safety_flag'') = Some (JInt i) \<longrightarrow>
           safety_flag j = (i \<noteq> 0)) \<and>
      (\<forall>r. map_of d (str_of ''safety_flag'') = Some (JFloat (Fin r)) \<longrightarrow>
           safety_flag j = (r \<noteq> 0)) \<and>
      (\<forall>s. map_of d (str_of ''safety_flag'') = Some (JStr s) \<longrightarrow>
           safety_flag j = (s \<noteq> [])) \<and>
      (\<forall>xs. map_of d (str_of ''safety_flag'') = Some (JList xs) \<longrightarrow>
           safety_flag j = (xs \<noteq> [])) \<and>
      (\<forall>kvs. map_of d (str_of ''safety_flag'') = Some (JDict kvs) \<longrightarrow>
           safety_flag j = (kvs \<noteq> [])) \<and>
      (map_of d (str_of ''neutral_summary'') = None \<longrightarrow> neutral_summary j = []) \<and>
      (map_of d (str_of ''advice_a'') = None \<longrightarrow> advice_a j = []) \<and>
      (map_of d (str_of ''advice_b'') = None \<longrightarrow> advice_b j = []) \<and>
      (map_of d (str_of ''apology_template'') = None \<longrightarrow> apology_template j = []) \<and>
      (map_of d (str_of ''safety_message'') = None \<longrightarrow> safety_message j = [])"
    if j: "judgment_of_data istr (JDict d) = Inr j"
  proof -
    obtain s1 s2 s3 s4 s6 where t:
      "text_field d (str_of ''neutral_summary'') = Some s1" "neutral_summary j = py_strip s1"
      "text_field d (str_of ''advice_a'') = Some s2" "advice_a j = py_strip s2"
      "text_field d (str_of ''advice_b'') = Some s3" "advice_b j = py_strip s3"
      "text_field d (str_of ''apology_template'') = Some s4" "apology_template j = py_strip s4"
      "text_field d (str_of ''safety_message'') = Some s6" "safety_message j = py_strip s6"
      and f: "safety_flag j = py_bool (case map_of d (str_of ''safety_flag'') of
                                   None \<Rightarrow> JBool False | Some v \<Rightarrow> v)"
      using judgment_of_data_texts [OF j] by blast
    have tr: "trimmed (neutral_summary j)" "trimmed (advice_a j)" "trimmed (advice_b j)"
      "trimmed (apology_template j)" "trimmed (safety_message j)"
      by (simp_all add: t trimmed_py_strip)
    have m1: "neutral_summary j = []" if "map_of d (str_of ''neutral_summary'') = None"
      using t(1,2) text_field_None [OF that] by (simp add: py_strip_Nil)
    have m2: "advice_a j = []" if "map_of d (str_of ''advice_a'') = None"
      using t(3,4) text_field_None [OF that] by (simp add: py_strip_Nil)
    have m3: "advice_b j = []" if "map_of d (str_of ''advice_b'') = None"
      using t(5,6) text_field_None [OF that] by (simp add: py_strip_Nil)
    have m4: "apology_template j = []" if "map_of d (str_of ''apology_template'') = None"
      using t(7,8) text_field_None [OF that] by (simp add: py_strip_Nil)
    have m6: "safety_message j = []" if "map_of d (str_of ''safety_message'') = None"
      using t(9,10) text_field_None [OF that] by (simp add: py_strip_Nil)
    have fl: "map_of d (str_of ''safety_flag'') = None \<longrightarrow> safety_flag j = False"
      "map_of d (str_of ''safety_flag'') = Some JNull \<longrightarrow> safety_flag j = False"
      "\<forall>b. map_of d (str_of ''safety_flag'') = Some (JBool b) \<longrightarrow> safety_flag j = b"
      "\<forall>i. map_of d (str_of ''safety_flag'') = Some (JInt i) \<longrightarrow> safety_flag j = (i \<noteq> 0)"
      "\<forall>r. map_of d (str_of ''safety_flag'') = Some (JFloat (Fin r)) \<longrightarrow>
           safety_flag j = (r \<noteq> 0)"
      "\<forall>s. map_of d (str_of ''safety_flag'') = Some (JStr s) \<longrightarrow> safety_flag j = (s \<noteq> [])"
      "\<forall>xs. map_of d (str_of ''safety_flag'') = Some (JList xs) \<longrightarrow>
           safety_flag j = (xs \<noteq> [])"
      "\<forall>kvs. map_of d (str_of ''safety_flag'') = Some (JDict kvs) \<longrightarrow>
           safety_flag j = (kvs \<noteq> [])"
      by (simp_all add: f)
    show ?thesis using t f tr m1 m2 m3 m4 m6 fl by blast
  qed
  have p4: "\<exists>j. judgment_of_data istr (JDict d) = Inr j \<and> advice_a j = []"
    if h: "map_of d (str_of ''advice_a'') = None \<and> text_fields_ok d \<and>
    int_field d (str_of ''a_responsibility'') = Some a \<and>
    int_field d (str_of ''b_responsibility'') = Some b \<and> 0 \<le> a \<and> 0 \<le> b"
  proof -
    obtain a' where n: "normalize_shares a b = Inr (a', 100 - a')"
      using normalize_shares_range h by blast
    from h have ia: "int_field d (str_of ''a_responsibility'') = Some a"
      and ib: "int_field d (str_of ''b_responsibility'') = Some b"
      and t: "text_fields_ok d" by simp_all
    from judgment_of_data_built [OF ia ib t n, of istr] h show ?thesis by auto
  qed
  show ?thesis
    using p1 p3 p4 by (simp only: spec_field_default_keys) blast
qed

theorem llm_field_defaulting_witness:
  "map_of response_40_40 (str_of ''advice_a'') = None \<and>
   text_fields_ok response_40_40 \<and>
   int_field response_40_40 (str_of ''a_responsibility'') = Some 40 \<and>
   int_field response_40_40 (str_of ''b_responsibility'') = Some 40 \<and>
   (0::int) \<le> 40 \<and>
   judgment_of_data no_int_str (JDict response_40_40) = Inr judgment_40_40 \<and>
   judgment_of_data no_int_str
     (JDict ((str_of ''advice_a'', spec_field_default (str_of ''advice_a'')) # response_40_40)) =
     Inr judgment_40_40 \<and>
   advice_a judgment_40_40 = [] \<and>
   trimmed (neutral_summary judgment_40_40) \<and>
   map_of response_40_40 (str_of ''safety_flag'') = Some (JInt 1) \<and>
   safety_flag judgment_40_40 = True \<and>
   map_of response_70_30 (str_of ''safety_flag'') = None \<and>
   safety_flag (projr (judgment_of_data no_int_str (JDict response_70_30))) = False"
proof -
  have j: "judgment_of_data no_int_str (JDict response_40_40) = Inr judgment_40_40"
    by (rule judgment_of_response_40_40)
  have m: "map_of response_40_40 (str_of ''advice_a'') = None"
    by (rule advice_a_response_40_40)
  have f: "map_of response_40_40 (str_of ''safety_flag'') = Some (JInt 1)"
    by (simp add: response_40_40_def str_of_def)
  note t = llm_field_defaulting [where d = response_40_40 and istr = no_int_str
      and j = judgment_40_40 and k = "str_of ''advice_a''" and a = 40 and b = 40]
  from t m have c: "judgment_of_data no_int_str
     (JDict ((str_of ''advice_a'', spec_field_default (str_of ''advice_a'')) # response_40_40)) =
     judgment_of_data no_int_str (JDict response_40_40)" by blast
  from t j m have a: "advice_a judgment_40_40 = []"
    and r: "trimmed (neutral_summary judgment_40_40)"
    by blast+
  from t j have "\<forall>i. map_of response_40_40 (str_of ''safety_flag'') = Some (JInt i) \<longrightarrow>
           safety_flag judgment_40_40 = (i \<noteq> 0)" by blast
  with f have b: "safety_flag judgment_40_40 = True" by simp
  have g: "map_of response_70_30 (str_of ''safety_flag'') = None"
    by (simp add: response_70_30_def str_of_def)
  obtain j' where j': "judgment_of_data no_int_str (JDict response_70_30) = Inr j'"
    using judgment_of_data_built [OF int_field_response_70_30 text_fields_ok_response_70_30
        normalize_shares_identity [of 70 30], of no_int_str]
    by auto
  from llm_field_defaulting [where d = response_70_30 and istr = no_int_str and j = j'] j' g
  have "safety_flag j' = False" by blast
  then have h: "safety_flag (projr (judgment_of_data no_int_str (JDict response_70_30))) = False"
    by (simp add: j')
  show ?thesis
    using j m a r b c f g h text_fields_ok_response_40_40 int_field_response_40_40 by simp
qed



text \<open>
  C10, as amended. Normalization is the identity on consistent splits of moderate size:
  when \<open>a + b = 100\<close> and \<open>\<bar>a\<bar> \<le> 2 ^ 50\<close>, the normalization returns \<open>a\<close> and \<open>b\<close>
  unchanged, so a judgment built from such a response carries them unchanged, and one is
  built whenever the text fields are strings.
\<close>

theorem normalization_identity:
  assumes "a + b = 100" and "\<bar>a\<bar> \<le> 2 ^ 50"
  shows "normalize_shares a b = Inr (a, b) \<and>
         (int_field d (str_of ''a_responsibility'') = Some a \<and>
          int_field d (str_of ''b_responsibility'') = Some b \<longrightarrow>
            (\<forall>j. judgment_of_data istr (JDict d) = Inr j \<longrightarrow>
               a_responsibility j = a \<and> b_responsibility j = b) \<and>
            (text_fields_ok d \<longrightarrow>
               (\<exists>j. judgment_of_data istr (JDict d) = Inr j \<and>
                    a_responsibility j = a \<and> b_responsibility j = b)))"
proof (intro conjI impI allI)
  show n: "normalize_shares a b = Inr (a, b)"
    using assms by (rule normalize_shares_identity)
  {
    fix j
    assume h: "int_field d (str_of ''a_responsibility'') = Some a \<and>
          int_field d (str_of ''b_responsibility'') = Some b"
      and j: "judgment_of_data istr (JDict d) = Inr j"
    have "normalize_shares a b = Inr (a_responsibility j, b_responsibility j)"
      using h j judgment_of_data_normalized by blast
    with n show "a_responsibility j = a" and "b_responsibility j = b" by simp_all
  }
  assume h: "int_field d (str_of ''a_responsibility'') = Some a \<and>
          int_field d (str_of ''b_responsibility'') = Some b"
    and t: "text_fields_ok d"
  from h have ia: "int_field d (str_of ''a_responsibility'') = Some a"
    and ib: "int_field d (str_of ''b_responsibility'') = Some b" by simp_all
  from judgment_of_data_built [OF ia ib t n, of istr]
  show "\<exists>j. judgment_of_data istr (JDict d) = Inr j \<and>
                    a_responsibility j = a \<and> b_responsibility j = b" by blast
qed

theorem normalization_identity_witness:
  "(70::int) + 30 = 100 \<and> \<bar>70::int\<bar> \<le> 2 ^ 50 \<and>
   int_field response_70_30 (str_of ''a_responsibility'') = Some 70 \<and>
   int_field response_70_30 (str_of ''b_responsibility'') = Some 30 \<and>
   text_fields_ok response_70_30 \<and>
   normalize_shares 70 30 = Inr (70, 30) \<and>
   a_responsibility (projr (judgment_of_data no_int_str (JDict response_70_30))) = 70 \<and>
   b_responsibility (projr (judgment_of_data no_int_str (JDict response_70_30))) = 30"
proof -
  have s: "(70::int) + 30 = 100" by simp
  have m: "\<bar>70::int\<bar> \<le> 2 ^ 50" by simp
  from normalization_identity [OF s m, of response_70_30 no_int_str]
  have n: "normalize_shares 70 30 = Inr (70, 30)"
    and "\<exists>j. judgment_of_data no_int_str (JDict response_70_30) = Inr j \<and>
                    a_responsibility j = 70 \<and> b_responsibility j = 30"
    using int_field_response_70_30 text_fields_ok_response_70_30 by simp_all
  then have "a_responsibility (projr (judgment_of_data no_int_str (JDict response_70_30))) = 70 \<and>
   b_responsibility (projr (judgment_of_data no_int_str (JDict response_70_30))) = 30"
    by auto
  then show ?thesis
    using n int_field_response_70_30 text_fields_ok_response_70_30 by simp
qed

text \<open>The claim C10 as stated fails: the integer fields \<open>2 ^ 53 + 1\<close> and
  \<open>99 - 2 ^ 53\<close> add to 100, and the normalization changes both.\<close>

theorem huge_share_changed:
  "(9007199254740993::int) + (- 9007199254740893) = 100 \<and>
   int_field response_huge (str_of ''a_responsibility'') = Some 9007199254740993 \<and>
   int_field response_huge (str_of ''b_responsibility'') = Some (- 9007199254740893) \<and>
   judgment_of_data no_int_str (JDict response_huge) =
     Inr \<lparr>neutral_summary = [], a_responsibility = 9007199254740994,
          b_responsibility = - 9007199254740894,
          advice_a = [], advice_b = [], apology_template = [],
          safety_flag = False, safety_message = []\<rparr>"
  by (simp add: int_field_response_huge judgment_of_response_huge)

end
